theory Spec2Isabelle
  imports Main "HOL-Library.Word" "HOL-Library.Multiset"
begin

unbundle bit_operations_syntax

section \<open>Data model\<close>

text \<open>
  The decompiler of \<^verbatim>\<open>src/main.cpp\<close> works on a byte span (\<^verbatim>\<open>Span<const byte_type>\<close>),
  a vector of decoded instructions (\<^verbatim>\<open>DisIns = BcIns<unsigned>\<close>) and trees of expressions
  and statements. Bytes are \<open>8 word\<close>, the operand of an instruction is a 32-bit value
  (\<open>32 word\<close>, read signed with \<open>sint\<close> and unsigned with \<open>unat\<close>), vectors and spans are lists.
  Locations and the decoder's cursor are \<^verbatim>\<open>unsigned\<close> in the source; they are natural numbers
  here, which is the same thing for every script shorter than \<open>2 ^ 32\<close> bytes. Arithmetic that
  mixes the cursor with a signed operand wraps modulo \<open>2 ^ 32\<close> and is written on \<open>32 word\<close>.
\<close>

type_synonym byte_type = "8 word"

text \<open>
  The opcode constants that \<^verbatim>\<open>main.cpp\<close> names. \<open>BC_UNNAMED b\<close> stands for a byte value that
  is none of them.
\<close>

datatype (plugins only: code) opcode =
    BC_OPCODE_NOP
  | BC_OPCODE_VAL8 | BC_OPCODE_VAL16 | BC_OPCODE_VALX8 | BC_OPCODE_VALX16
  | BC_OPCODE_REF8 | BC_OPCODE_REF16 | BC_OPCODE_REFX8 | BC_OPCODE_REFX16
  | BC_OPCODE_GVAL8 | BC_OPCODE_GVAL16 | BC_OPCODE_GVALX8 | BC_OPCODE_GVALX16
  | BC_OPCODE_GREF8 | BC_OPCODE_GREF16 | BC_OPCODE_GREFX8 | BC_OPCODE_GREFX16
  | BC_OPCODE_NUMBER8 | BC_OPCODE_NUMBER16 | BC_OPCODE_NUMBER32
  | BC_OPCODE_STRING8 | BC_OPCODE_STRING16 | BC_OPCODE_STRING32
  | BC_OPCODE_DEREF | BC_OPCODE_DISC | BC_OPCODE_STORE
  | BC_OPCODE_ADD | BC_OPCODE_SUB | BC_OPCODE_MUL | BC_OPCODE_DIV | BC_OPCODE_MOD
  | BC_OPCODE_ORR | BC_OPCODE_AND | BC_OPCODE_XOR | BC_OPCODE_LSL | BC_OPCODE_LSR
  | BC_OPCODE_EQ | BC_OPCODE_NE | BC_OPCODE_LT | BC_OPCODE_LE | BC_OPCODE_GT | BC_OPCODE_GE
  | BC_OPCODE_EQSTR | BC_OPCODE_NESTR
  | BC_OPCODE_NEG | BC_OPCODE_NOT | BC_OPCODE_MVN
  | BC_OPCODE_CALL | BC_OPCODE_CALLEXT | BC_OPCODE_RETURN
  | BC_OPCODE_B | BC_OPCODE_BY | BC_OPCODE_BKY | BC_OPCODE_BN | BC_OPCODE_BKN
  | BC_OPCODE_YIELD | BC_OPCODE_40 | BC_OPCODE_PRINTF | BC_OPCODE_DUP
  | BC_OPCODE_RETN | BC_OPCODE_RETY | BC_OPCODE_ASSIGN
  | BC_FAKEOP_LAND | BC_FAKEOP_LORR
  | BC_UNNAMED byte_type

text \<open>
  \<^verbatim>\<open>core/por-bytecode.h\<close> is included by \<^verbatim>\<open>main.cpp\<close> but is not among the sources: the
  numeric values of the opcode constants and the table behind \<^verbatim>\<open>BcIns::info()\<close> and
  \<^verbatim>\<open>BcIns::valid<IsFE10>()\<close> are therefore a parameter of every function that uses them.
  \<open>opcode_of\<close> says which constant a byte is, \<open>operandSize\<close> and \<open>isJump\<close> are the two fields
  of \<^verbatim>\<open>info()\<close>, and \<open>valid fe10 op\<close> is \<^verbatim>\<open>valid<fe10>()\<close>.
\<close>

record bytecode_header =
  opcode_of :: "byte_type \<Rightarrow> opcode"
  operandSize :: "opcode \<Rightarrow> nat"
  isJump :: "opcode \<Rightarrow> bool"
  valid :: "bool \<Rightarrow> opcode \<Rightarrow> bool"

record DisIns =
  location :: nat
  opcode :: opcode
  operand :: "32 word"

datatype error =
    InvalidFE9Opcode
  | InvalidOpcode
  | ReachedEndOfScript
  | ExpectedAfterPush
  | ThrowFalse
  | BadStringPoolOffset
  | OutOfRange

section \<open>Instruction decoder\<close>

text \<open>\<^verbatim>\<open>decode_int_be\<close>: \<^verbatim>\<open>result = *begin++ + (result << 8)\<close> over the bytes, in \<^verbatim>\<open>uint32_t\<close>.\<close>

definition decode_int_be :: "byte_type list \<Rightarrow> 32 word" where
  "decode_int_be bs = foldl (\<lambda>result b. ucast b + push_bit 8 result) 0 bs"

text \<open>
  \<^verbatim>\<open>sign_extend\<close>: \<^verbatim>\<open>(value << rbits) >> rbits\<close> on \<^verbatim>\<open>int32_t\<close> with
  \<^verbatim>\<open>rbits = 32 - bits\<close>; the right shift of a signed value is arithmetic. The source is
  defined for \<open>bits \<le> 32\<close>, that is for operands of at most four bytes.
\<close>

definition sign_extend :: "32 word \<Rightarrow> nat \<Rightarrow> 32 word" where
  "sign_extend v bits = (let rbits = 32 - bits in signed_drop_bit rbits (push_bit rbits v))"

text \<open>The variables of the decoding loop: the cursor \<^verbatim>\<open>i\<close>, \<^verbatim>\<open>lastJump\<close>, \<^verbatim>\<open>ended\<close>, \<^verbatim>\<open>result\<close>.\<close>

record dec_state =
  dec_i :: nat
  dec_lastJump :: nat
  dec_ended :: bool
  dec_result :: "DisIns list"

text \<open>
  Lines 139 to 161: the operand of the opcode \<open>op\<close> whose byte was just read, the cursor \<open>i\<close>
  standing after the opcode byte. The result is the operand and the cursor after it. The
  extra byte of a \<^verbatim>\<open>CALL\<close> is read at an index inside the span, since the check before it
  leaves \<open>i + operandSize < length bytes\<close>. \<^verbatim>\<open>IsFE10\<close> selects the dialect in which \<^verbatim>\<open>CALL\<close>
  has the variable-length operand.
\<close>

definition read_operand ::
  "bytecode_header \<Rightarrow> bool \<Rightarrow> byte_type list \<Rightarrow> opcode \<Rightarrow> nat \<Rightarrow> error + (32 word \<times> nat)" where
  "read_operand T IsFE10 bytes op i =
     (if operandSize T op > 0 then
        (if i + operandSize T op \<ge> length bytes then Inl ReachedEndOfScript
         else
           let v = sign_extend (decode_int_be (take (operandSize T op) (drop i bytes)))
                     (operandSize T op * 8);
               i' = i + operandSize T op
           in if IsFE10 \<and> op = BC_OPCODE_CALL then
                (if v AND 0x80 \<noteq> 0
                 then Inr (push_bit 8 (v AND 0x7F) + ucast (bytes ! i'), i' + 1)
                 else Inr (v, i'))
              else Inr (v, i'))
      else Inr (0, i))"

text \<open>
  The case labels of the \<^verbatim>\<open>switch\<close> at the end of the loop body: lines 166 to 170 and
  lines 176 to 178. The decoder names the jump opcodes itself; the slicer asks the table
  (\<open>isJump\<close>).
\<close>

definition jump_case :: "opcode \<Rightarrow> bool" where
  "jump_case op \<longleftrightarrow>
     op \<in> {BC_OPCODE_B, BC_OPCODE_BY, BC_OPCODE_BKY, BC_OPCODE_BN, BC_OPCODE_BKN}"

definition return_case :: "opcode \<Rightarrow> bool" where
  "return_case op \<longleftrightarrow> op \<in> {BC_OPCODE_RETURN, BC_OPCODE_RETN, BC_OPCODE_RETY}"

text \<open>
  The \<^verbatim>\<open>switch\<close> (lines 163 to 184), with the cursor \<open>i\<close> after the operand and the operand
  \<open>v\<close> read so far: the new values of \<^verbatim>\<open>ins.operand\<close>, \<^verbatim>\<open>lastJump\<close> and \<^verbatim>\<open>ended\<close>.
  \<^verbatim>\<open>i + ins.operand - ins.info().operandSize\<close> is computed modulo \<open>2 ^ 32\<close>, and
  \<^verbatim>\<open>(unsigned) ins.operand\<close> is \<open>unat\<close>.
\<close>

definition decode_switch ::
  "bytecode_header \<Rightarrow> opcode \<Rightarrow> nat \<Rightarrow> 32 word \<Rightarrow> nat \<Rightarrow> bool \<Rightarrow> 32 word \<times> nat \<times> bool" where
  "decode_switch T op i v lastJump ended =
     (if jump_case op then
        let target = word_of_nat i + v - word_of_nat (operandSize T op)
        in (target, max lastJump (unat target), ended)
      else if return_case op then
        (v, lastJump, (if i > lastJump then True else ended))
      else (v, lastJump, ended))"

text \<open>
  One turn of the \<^verbatim>\<open>while\<close> loop of \<^verbatim>\<open>decode_script\<close> (lines 128 to 186). The loop runs it
  only with the cursor inside the span.
\<close>

definition decode_step ::
  "bytecode_header \<Rightarrow> bool \<Rightarrow> byte_type list \<Rightarrow> dec_state \<Rightarrow> error + dec_state" where
  "decode_step T IsFE10 bytes st =
     (let op = opcode_of T (bytes ! dec_i st) in
      if \<not> valid T IsFE10 op then
        (if valid T True op then Inl InvalidFE9Opcode else Inl InvalidOpcode)
      else
        (case read_operand T IsFE10 bytes op (dec_i st + 1) of
           Inl e \<Rightarrow> Inl e
         | Inr (v, i) \<Rightarrow>
             (case decode_switch T op i v (dec_lastJump st) (dec_ended st) of
                (v', lastJump', ended') \<Rightarrow>
                  Inr \<lparr> dec_i = i, dec_lastJump = lastJump', dec_ended = ended',
                        dec_result = dec_result st @
                          [\<lparr> location = dec_i st, opcode = op, operand = v' \<rparr>] \<rparr>)))"

lemma read_operand_cursor:
  "read_operand T f bytes op i = Inr (v, i') \<Longrightarrow> i \<le> length bytes \<Longrightarrow>
     i \<le> i' \<and> i' \<le> length bytes"
  by (auto simp: read_operand_def Let_def split: if_splits)

lemma decode_step_Inr:
  assumes "decode_step T f bytes st = Inr st'"
  obtains v i v' lastJump' ended' where
    "valid T f (opcode_of T (bytes ! dec_i st))"
    "read_operand T f bytes (opcode_of T (bytes ! dec_i st)) (dec_i st + 1) = Inr (v, i)"
    "decode_switch T (opcode_of T (bytes ! dec_i st)) i v (dec_lastJump st) (dec_ended st)
       = (v', lastJump', ended')"
    "st' = \<lparr> dec_i = i, dec_lastJump = lastJump', dec_ended = ended',
             dec_result = dec_result st @
               [\<lparr> location = dec_i st, opcode = opcode_of T (bytes ! dec_i st),
                  operand = v' \<rparr>] \<rparr>"
  using assms unfolding decode_step_def Let_def
  by (auto split: if_splits sum.splits prod.splits)

lemma decode_step_cursor:
  assumes "decode_step T f bytes st = Inr st'" and "dec_i st < length bytes"
  shows "dec_i st < dec_i st' \<and> dec_i st' \<le> length bytes"
proof -
  from assms(1) obtain v i where
    r: "read_operand T f bytes (opcode_of T (bytes ! dec_i st)) (dec_i st + 1) = Inr (v, i)"
    and i: "dec_i st' = i"
    by (rule decode_step_Inr) simp
  from read_operand_cursor [OF r] assms(2) i show ?thesis by simp
qed

text \<open>\<^verbatim>\<open>while (!ended && i < bytes.size())\<close>; an exception leaves the loop with the error.\<close>

function decode_while ::
  "bytecode_header \<Rightarrow> bool \<Rightarrow> byte_type list \<Rightarrow> dec_state \<Rightarrow> error + dec_state" where
  "decode_while T IsFE10 bytes st =
     (if \<not> dec_ended st \<and> dec_i st < length bytes then
        (case decode_step T IsFE10 bytes st of
           Inl e \<Rightarrow> Inl e
         | Inr st' \<Rightarrow> decode_while T IsFE10 bytes st')
      else Inr st)"
  by pat_completeness auto
termination
  by (relation "measure (\<lambda>(T, f, bytes, st). length bytes - dec_i st)")
     (auto dest: decode_step_cursor)

declare decode_while.simps [simp del]

definition decode_init :: dec_state where
  "decode_init = \<lparr> dec_i = 0, dec_lastJump = 0, dec_ended = False, dec_result = [] \<rparr>"

definition decode_script ::
  "bytecode_header \<Rightarrow> bool \<Rightarrow> byte_type list \<Rightarrow> error + DisIns list" where
  "decode_script T IsFE10 bytes =
     (case decode_while T IsFE10 bytes decode_init of
        Inl e \<Rightarrow> Inl e
      | Inr st \<Rightarrow> Inr (dec_result st))"

section \<open>Slicer\<close>

text \<open>
  \<^verbatim>\<open>slicePoints\<close> is a \<^verbatim>\<open>std::set<std::size_t>\<close>. Inserting \<^verbatim>\<open>ins.operand\<close>, a signed 32-bit
  value, converts it to \<^verbatim>\<open>size_t\<close> (64 bits): a negative operand becomes a huge offset.
\<close>

definition size_t_of :: "32 word \<Rightarrow> nat" where
  "size_t_of v = unat (scast v :: 64 word)"

text \<open>Step 1 of \<^verbatim>\<open>slice_script\<close>, the body of the loop over the instructions (lines 202 to 223).\<close>

definition slice_point_step :: "bytecode_header \<Rightarrow> bool \<Rightarrow> nat set \<Rightarrow> DisIns \<Rightarrow> nat set" where
  "slice_point_step T IgnoreBranchAndKeeps slicePoints ins =
     (if IgnoreBranchAndKeeps \<and> (opcode ins = BC_OPCODE_BKN \<or> opcode ins = BC_OPCODE_BKY)
      then slicePoints
      else
        let slicePoints1 =
              (if isJump T (opcode ins)
               then insert (size_t_of (operand ins))
                      (insert (location ins + 1 + operandSize T (opcode ins)) slicePoints)
               else slicePoints)
        in if opcode ins = BC_OPCODE_RETURN
           then insert (location ins + 1) slicePoints1
           else slicePoints1)"

definition slice_points :: "bytecode_header \<Rightarrow> bool \<Rightarrow> DisIns list \<Rightarrow> nat set" where
  "slice_points T IgnoreBranchAndKeeps script =
     foldl (slice_point_step T IgnoreBranchAndKeeps) {} script"

text \<open>
  Step 2 (lines 228 to 250): each turn takes the next slice point and cuts the script at the
  first instruction whose location is at or after it (\<^verbatim>\<open>std::find_if\<close>); when the slice points
  are used up, the rest of the script is one slice. \<^verbatim>\<open>core/offset-map.h\<close> is not among the
  sources, so the result is the list of the \<^verbatim>\<open>result.set(offset, slice)\<close> calls in order.
\<close>

fun slice_cut :: "DisIns list \<Rightarrow> nat list \<Rightarrow> (nat \<times> DisIns list) list" where
  "slice_cut [] slicePoints = []"
| "slice_cut (ins # script) [] = [(location ins, ins # script)]"
| "slice_cut (ins # script) (sliceOffset # slicePoints) =
     (location ins, takeWhile (\<lambda>x. \<not> location x \<ge> sliceOffset) (ins # script))
       # slice_cut (dropWhile (\<lambda>x. \<not> location x \<ge> sliceOffset) (ins # script)) slicePoints"

definition slice_script ::
  "bytecode_header \<Rightarrow> bool \<Rightarrow> DisIns list \<Rightarrow> (nat \<times> DisIns list) list" where
  "slice_script T IgnoreBranchAndKeeps script =
     slice_cut script (sorted_list_of_set (slice_points T IgnoreBranchAndKeeps script))"

section \<open>Logical rewrite\<close>

text \<open>
  The inner \<^verbatim>\<open>while\<close> loop of \<^verbatim>\<open>convert_bks_to_fake_logic\<close> (lines 286 to 290): swap the
  instruction at \<open>j\<close> with the one before it until the instruction at \<open>j\<close> has the target
  location or the slice ends. It returns the slice \<open>sl\<close> and the final \<open>j\<close>.
\<close>

function bubble :: "DisIns list \<Rightarrow> nat \<Rightarrow> nat \<Rightarrow> DisIns list \<times> nat" where
  "bubble sl j target =
     (if j < length sl \<and> location (sl ! j) \<noteq> target
      then bubble (sl[j - 1 := sl ! j, j := sl ! (j - 1)]) (j + 1) target
      else (sl, j))"
  by pat_completeness auto
termination
  by (relation "measure (\<lambda>(sl, j, target). length sl - j)") auto

declare bubble.simps [simp del]

lemma bubble_length: "bubble sl j target = (sl', j') \<Longrightarrow> length sl' = length sl"
proof (induction sl j target rule: bubble.induct)
  case (1 sl j target)
  show ?case
  proof (cases "j < length sl \<and> location (sl ! j) \<noteq> target")
    case True
    with "1.prems" have
      "bubble (sl[j - 1 := sl ! j, j := sl ! (j - 1)]) (j + 1) target = (sl', j')"
      by (simp add: bubble.simps [of sl j target])
    from "1.IH" [OF True this] show ?thesis by simp
  next
    case False
    with "1.prems" show ?thesis by (simp add: bubble.simps [of sl j target])
  qed
qed

text \<open>
  The \<^verbatim>\<open>for\<close> loop (lines 273 to 300). In the branch-and-keep case the index is incremented
  by \<^verbatim>\<open>slice[i++]\<close> and, as the case falls through to \<^verbatim>\<open>default: continue\<close>, once more by the
  \<^verbatim>\<open>++i\<close> of the loop: the scan goes on at \<open>i + 2\<close>. \<^verbatim>\<open>unsigned target = slice[i++].operand\<close>
  reads the operand unsigned. The inner loop starts at \<open>j = i + 1\<close> and ends with \<open>j\<close> at most
  the length of the slice, so \<open>j - 1\<close> is an index of the slice.
\<close>

function convert_loop :: "DisIns list \<Rightarrow> nat \<Rightarrow> DisIns list" where
  "convert_loop sl i =
     (if i < length sl then
        (let op = opcode (sl ! i) in
         if op = BC_OPCODE_BKN \<or> op = BC_OPCODE_BKY then
           (case bubble sl (i + 1) (unat (operand (sl ! i))) of
              (sl', j) \<Rightarrow>
                convert_loop
                  (sl'[j - 1 := (sl' ! (j - 1))
                     \<lparr> opcode := (if op = BC_OPCODE_BKN then BC_FAKEOP_LAND else BC_FAKEOP_LORR),
                       operand := 0 \<rparr>])
                  (i + 2))
         else convert_loop sl (i + 1))
      else sl)"
  by pat_completeness auto
termination
  by (relation "measure (\<lambda>(sl, i). length sl - i)")
     (auto dest: bubble_length [OF sym])

declare convert_loop.simps [simp del]

definition convert_bks_to_fake_logic :: "DisIns list \<Rightarrow> DisIns list" where
  "convert_bks_to_fake_logic sl = convert_loop sl 0"

text \<open>
  \<^verbatim>\<open>get_bks_as_fake_logic\<close> copies the slice and rewrites the copy. Neither function has a
  \<^verbatim>\<open>throw\<close>, and every index they use is inside the slice, so the call always returns: in the
  convention of this development, where an exception is \<open>Inl\<close>, its outcome is always \<open>Inr\<close>.
\<close>

definition get_bks_as_fake_logic :: "DisIns list \<Rightarrow> error + DisIns list" where
  "get_bks_as_fake_logic sl = Inr (convert_bks_to_fake_logic sl)"

section \<open>Expressions and statements\<close>

text \<open>\<^verbatim>\<open>Expr::Kind\<close> and \<^verbatim>\<open>Stmt::Kind\<close>; the enumerators carry a prefix, as \<open>Not\<close> is taken.\<close>

datatype (plugins only: code) ExprKind =
    Kind_IntLiteral | Kind_StrLiteral | Kind_Named
  | Kind_Neg | Kind_Not | Kind_BitwiseNot | Kind_Deref | Kind_Addrof
  | Kind_Assign | Kind_Add | Kind_Sub | Kind_Mul | Kind_Div | Kind_Mod
  | Kind_Or | Kind_And | Kind_Xor | Kind_Lsl | Kind_Lsr
  | Kind_Eq | Kind_Ne | Kind_Lt | Kind_Le | Kind_Gt | Kind_Ge
  | Kind_EqStr | Kind_NeStr | Kind_LogicalAnd | Kind_LogicalOr
  | Kind_Func
  | Kind_Invalid

datatype StmtKind = Stmt_Push | Stmt_Expr | Stmt_Goto | Stmt_GotoIf | Stmt_Yield | Stmt_Return

text \<open>
  \<^verbatim>\<open>struct Expr\<close>: the kind tag, the literal, the name and the owned children. A
  \<^verbatim>\<open>std::unique_ptr<Expr>\<close> is the tree it owns.
\<close>

datatype Expr =
  Expr (kind: ExprKind) (literal: "32 word") (named: string) (children: "Expr list")

record Stmt =
  skind :: StmtKind
  label :: string
  schildren :: "Expr list"

definition make_unique_intlit :: "32 word \<Rightarrow> Expr" where
  "make_unique_intlit v = Expr Kind_IntLiteral v [] []"

definition make_unique_strlit :: "string \<Rightarrow> Expr" where
  "make_unique_strlit v = Expr Kind_StrLiteral 0 v []"

definition make_unique_identifier :: "string \<Rightarrow> Expr" where
  "make_unique_identifier v = Expr Kind_Named 0 v []"

definition make_unique_unop :: "ExprKind \<Rightarrow> Expr \<Rightarrow> Expr" where
  "make_unique_unop k inner = Expr k 0 [] [inner]"

definition make_unique_binop :: "ExprKind \<Rightarrow> Expr \<Rightarrow> Expr \<Rightarrow> Expr" where
  "make_unique_binop k lexpr rexpr = Expr k 0 [] [lexpr, rexpr]"

text \<open>
  \<^verbatim>\<open>Expr::make_unique_copy\<close> (lines 426 to 439): a fresh node with the three scalar fields
  copied and, for each child in order, a copy of the child pushed.
\<close>

fun make_unique_copy :: "Expr \<Rightarrow> Expr" where
  "make_unique_copy (Expr k l n cs) = Expr k l n (map make_unique_copy cs)"

text \<open>
  \<^verbatim>\<open>std::to_string\<close> of a signed integer: the decimal digits, most significant first, after
  a minus sign when the value is negative.
\<close>

definition digit_char :: "nat \<Rightarrow> char" where
  "digit_char d = char_of (of_char CHR ''0'' + d)"

function decimal :: "nat \<Rightarrow> string" where
  "decimal n =
     (if n div 10 = 0 then [digit_char n]
      else decimal (n div 10) @ [digit_char (n mod 10)])"
  by pat_completeness auto
termination
  by (relation "measure id") auto

declare decimal.simps [simp del]

definition to_string :: "int \<Rightarrow> string" where
  "to_string v = (if 0 \<le> v then decimal (nat v) else CHR ''-'' # decimal (nat (- v)))"

definition make_push :: "Expr \<Rightarrow> Stmt" where
  "make_push inner = \<lparr> skind = Stmt_Push, label = [], schildren = [inner] \<rparr>"

definition make_goto :: "32 word \<Rightarrow> Stmt" where
  "make_goto target =
     \<lparr> skind = Stmt_Goto, label = [],
       schildren = [make_unique_identifier (''label_'' @ to_string (sint target))] \<rparr>"

definition make_goto_if :: "32 word \<Rightarrow> Expr \<Rightarrow> Stmt" where
  "make_goto_if target truth =
     \<lparr> skind = Stmt_GotoIf, label = [],
       schildren = [make_unique_identifier (''label_'' @ to_string (sint target)), truth] \<rparr>"

definition make_yield :: Stmt where
  "make_yield = \<lparr> skind = Stmt_Yield, label = [], schildren = [] \<rparr>"

definition make_return :: "Expr \<Rightarrow> Stmt" where
  "make_return inner = \<lparr> skind = Stmt_Return, label = [], schildren = [inner] \<rparr>"

section \<open>Symbolic evaluator\<close>

record SceneInfo =
  idx :: nat
  name :: string
  scene_kind :: nat
  parameters :: "int list"
  argCnt :: nat
  varnames :: "string list"
  isGlobal :: bool

record ScriptInfo =
  scenes :: "SceneInfo list"
  strpool :: "char list"
  globalnames :: "string list"

text \<open>
  \<^verbatim>\<open>get_cstr\<close> throws on an offset outside the pool; the C string it returns ends at the first
  NUL. Reading a vector or a C string out of range is undefined in the source: the model makes
  it the error \<open>OutOfRange\<close>.
\<close>

definition get_cstr :: "ScriptInfo \<Rightarrow> nat \<Rightarrow> error + string" where
  "get_cstr script offset =
     (if offset \<ge> length (strpool script) then Inl BadStringPoolOffset
      else if CHR 0x00 \<in> set (drop offset (strpool script))
      then Inr (takeWhile (\<lambda>c. c \<noteq> CHR 0x00) (drop offset (strpool script)))
      else Inl OutOfRange)"

definition vec_at :: "'a list \<Rightarrow> nat \<Rightarrow> error + 'a" where
  "vec_at xs i = (if i < length xs then Inr (xs ! i) else Inl OutOfRange)"

definition child0 :: "Stmt \<Rightarrow> error + Expr" where
  "child0 s = (case schildren s of [] \<Rightarrow> Inl OutOfRange | c # cs \<Rightarrow> Inr c)"

fun children0 :: "Stmt list \<Rightarrow> error + Expr list" where
  "children0 [] = Inr []"
| "children0 (s # ss) =
     (case child0 s of
        Inl e \<Rightarrow> Inl e
      | Inr c \<Rightarrow> (case children0 ss of Inl e \<Rightarrow> Inl e | Inr cs \<Rightarrow> Inr (c # cs)))"

text \<open>\<^verbatim>\<open>result.back() = s\<close>, and \<^verbatim>\<open>back.children[0] = e\<close>.\<close>

definition set_back :: "Stmt list \<Rightarrow> Stmt \<Rightarrow> Stmt list" where
  "set_back result s = result[length result - 1 := s]"

definition set_child0 :: "Stmt \<Rightarrow> Expr \<Rightarrow> Stmt" where
  "set_child0 s e = s\<lparr> schildren := (schildren s)[0 := e] \<rparr>"

text \<open>
  The helper lambdas of \<^verbatim>\<open>make_statements\<close> (lines 531 to 602), \<^verbatim>\<open>result\<close> passed
  explicitly. \<^verbatim>\<open>call\<close> takes the function name as a C string; the names it is given hold no
  NUL, so the model passes the string as it is.
\<close>

definition expect_push :: "Stmt list \<Rightarrow> (Stmt \<Rightarrow> error + Stmt list) \<Rightarrow> error + Stmt list" where
  "expect_push result func =
     (if length result < 1 then Inl ExpectedAfterPush
      else if skind (last result) \<noteq> Stmt_Push then Inl ExpectedAfterPush
      else func (last result))"

definition expect_push_push ::
  "Stmt list \<Rightarrow> (Stmt \<Rightarrow> Stmt \<Rightarrow> error + Stmt list) \<Rightarrow> error + Stmt list" where
  "expect_push_push result func =
     (if length result < 2 then Inl ThrowFalse
      else if skind (last result) \<noteq> Stmt_Push then Inl ThrowFalse
      else if skind (result ! (length result - 2)) \<noteq> Stmt_Push then Inl ThrowFalse
      else func (result ! (length result - 2)) (last result))"

definition unop :: "Stmt list \<Rightarrow> ExprKind \<Rightarrow> error + Stmt list" where
  "unop result k =
     expect_push result (\<lambda>back.
       case child0 back of
         Inl e \<Rightarrow> Inl e
       | Inr c \<Rightarrow> Inr (set_back result (set_child0 back (make_unique_unop k c))))"

definition binop :: "Stmt list \<Rightarrow> ExprKind \<Rightarrow> error + Stmt list" where
  "binop result k =
     expect_push_push result (\<lambda>l r.
       case child0 l of
         Inl e \<Rightarrow> Inl e
       | Inr lexpr \<Rightarrow>
           (case child0 r of
              Inl e \<Rightarrow> Inl e
            | Inr rexpr \<Rightarrow>
                Inr (butlast (butlast result)
                       @ [make_push (make_unique_binop k lexpr rexpr)])))"

definition call :: "Stmt list \<Rightarrow> string \<Rightarrow> nat \<Rightarrow> error + Stmt list" where
  "call result funcname cnt =
     (if length result < cnt then Inl ThrowFalse
      else if list_ex (\<lambda>s. skind s \<noteq> Stmt_Push) (drop (length result - cnt) result)
      then Inl ThrowFalse
      else
        (case children0 (drop (length result - cnt) result) of
           Inl e \<Rightarrow> Inl e
         | Inr cs \<Rightarrow>
             Inr (take (length result - cnt) result @ [make_push (Expr Kind_Func 0 funcname cs)])))"

text \<open>The bodies shared by several case labels of the \<^verbatim>\<open>switch\<close> (lines 614 to 708).\<close>

definition push_val :: "string list \<Rightarrow> DisIns \<Rightarrow> Stmt list \<Rightarrow> error + Stmt list" where
  "push_val names ins result =
     (case vec_at names (size_t_of (operand ins)) of
        Inl e \<Rightarrow> Inl e
      | Inr n \<Rightarrow> Inr (result @ [make_push (make_unique_identifier n)]))"

definition push_valx :: "string list \<Rightarrow> DisIns \<Rightarrow> Stmt list \<Rightarrow> error + Stmt list" where
  "push_valx names ins result =
     expect_push result (\<lambda>back.
       case vec_at names (size_t_of (operand ins)) of
         Inl e \<Rightarrow> Inl e
       | Inr n \<Rightarrow>
           (case child0 back of
              Inl e \<Rightarrow> Inl e
            | Inr c \<Rightarrow>
                Inr (set_back result (set_child0 back
                  (make_unique_unop Kind_Deref
                    (make_unique_binop Kind_Add
                      (make_unique_unop Kind_Addrof (make_unique_identifier n)) c))))))"

definition push_ref :: "string list \<Rightarrow> DisIns \<Rightarrow> Stmt list \<Rightarrow> error + Stmt list" where
  "push_ref names ins result =
     (case vec_at names (size_t_of (operand ins)) of
        Inl e \<Rightarrow> Inl e
      | Inr n \<Rightarrow>
          Inr (result @ [make_push (make_unique_unop Kind_Addrof (make_unique_identifier n))]))"

definition push_refx :: "string list \<Rightarrow> DisIns \<Rightarrow> Stmt list \<Rightarrow> error + Stmt list" where
  "push_refx names ins result =
     expect_push result (\<lambda>back.
       case vec_at names (size_t_of (operand ins)) of
         Inl e \<Rightarrow> Inl e
       | Inr n \<Rightarrow>
           (case child0 back of
              Inl e \<Rightarrow> Inl e
            | Inr c \<Rightarrow>
                Inr (set_back result (set_child0 back
                  (make_unique_binop Kind_Add
                    (make_unique_unop Kind_Addrof (make_unique_identifier n)) c)))))"

definition push_number :: "DisIns \<Rightarrow> Stmt list \<Rightarrow> error + Stmt list" where
  "push_number ins result = Inr (result @ [make_push (make_unique_intlit (operand ins))])"

definition push_string :: "ScriptInfo \<Rightarrow> DisIns \<Rightarrow> Stmt list \<Rightarrow> error + Stmt list" where
  "push_string script ins result =
     (case get_cstr script (unat (operand ins)) of
        Inl e \<Rightarrow> Inl e
      | Inr str \<Rightarrow> Inr (result @ [make_push (make_unique_strlit str)]))"

text \<open>\<^verbatim>\<open>result.back().kind = k\<close>, after a helper that left \<^verbatim>\<open>result\<close> as \<open>r\<close>.\<close>

definition back_kind :: "StmtKind \<Rightarrow> error + Stmt list \<Rightarrow> error + Stmt list" where
  "back_kind k r =
     (case r of
        Inl e \<Rightarrow> Inl e
      | Inr result \<Rightarrow>
          (if result = [] then Inl OutOfRange
           else Inr (set_back result ((last result)\<lparr> skind := k \<rparr>))))"

text \<open>
  The \<^verbatim>\<open>switch\<close> of \<^verbatim>\<open>make_statements\<close> (lines 606 to 1008), one instruction applied to
  \<^verbatim>\<open>result\<close>, the cases in the order of the source. The switch has no case for
  \<^verbatim>\<open>BC_OPCODE_BKY\<close> and \<^verbatim>\<open>BC_OPCODE_BKN\<close>: they reach \<^verbatim>\<open>default: throw false\<close>, as every
  unnamed opcode does. Conversions of \<^verbatim>\<open>ins.operand\<close>: to an index by \<open>size_t_of\<close>, to
  \<^verbatim>\<open>unsigned\<close> by \<open>unat\<close>; \<^verbatim>\<open>ins.operand >> 8\<close> is an arithmetic shift.
\<close>

definition exec_ins :: "ScriptInfo \<Rightarrow> SceneInfo \<Rightarrow> DisIns \<Rightarrow> Stmt list \<Rightarrow> error + Stmt list" where
  "exec_ins script scene ins result =
     (case opcode ins of
        BC_OPCODE_NOP \<Rightarrow> Inr result
      | BC_OPCODE_VAL8 \<Rightarrow> push_val (varnames scene) ins result
      | BC_OPCODE_VAL16 \<Rightarrow> push_val (varnames scene) ins result
      | BC_OPCODE_VALX8 \<Rightarrow> push_valx (varnames scene) ins result
      | BC_OPCODE_VALX16 \<Rightarrow> push_valx (varnames scene) ins result
      | BC_OPCODE_REF8 \<Rightarrow> push_ref (varnames scene) ins result
      | BC_OPCODE_REF16 \<Rightarrow> push_ref (varnames scene) ins result
      | BC_OPCODE_REFX8 \<Rightarrow> push_refx (varnames scene) ins result
      | BC_OPCODE_REFX16 \<Rightarrow> push_refx (varnames scene) ins result
      | BC_OPCODE_GVAL8 \<Rightarrow> push_val (globalnames script) ins result
      | BC_OPCODE_GVAL16 \<Rightarrow> push_val (globalnames script) ins result
      | BC_OPCODE_GVALX8 \<Rightarrow> push_valx (globalnames script) ins result
      | BC_OPCODE_GVALX16 \<Rightarrow> push_valx (globalnames script) ins result
      | BC_OPCODE_GREF8 \<Rightarrow> push_ref (globalnames script) ins result
      | BC_OPCODE_GREF16 \<Rightarrow> push_ref (globalnames script) ins result
      | BC_OPCODE_GREFX8 \<Rightarrow> push_refx (globalnames script) ins result
      | BC_OPCODE_GREFX16 \<Rightarrow> push_refx (globalnames script) ins result
      | BC_OPCODE_NUMBER8 \<Rightarrow> push_number ins result
      | BC_OPCODE_NUMBER16 \<Rightarrow> push_number ins result
      | BC_OPCODE_NUMBER32 \<Rightarrow> push_number ins result
      | BC_OPCODE_STRING8 \<Rightarrow> push_string script ins result
      | BC_OPCODE_STRING16 \<Rightarrow> push_string script ins result
      | BC_OPCODE_STRING32 \<Rightarrow> push_string script ins result
      | BC_OPCODE_DEREF \<Rightarrow> expect_push result (\<lambda>back.
            case child0 back of
              Inl e \<Rightarrow> Inl e
            | Inr c \<Rightarrow>
                Inr (result @ [make_push (make_unique_unop Kind_Deref (make_unique_copy c))]))
      | BC_OPCODE_DISC \<Rightarrow> expect_push result (\<lambda>back.
            Inr (set_back result (back\<lparr> skind := Stmt_Expr \<rparr>)))
      | BC_OPCODE_STORE \<Rightarrow> binop result Kind_Assign
      | BC_OPCODE_ADD \<Rightarrow> binop result Kind_Add
      | BC_OPCODE_SUB \<Rightarrow> binop result Kind_Sub
      | BC_OPCODE_MUL \<Rightarrow> binop result Kind_Mul
      | BC_OPCODE_DIV \<Rightarrow> binop result Kind_Div
      | BC_OPCODE_MOD \<Rightarrow> binop result Kind_Mod
      | BC_OPCODE_ORR \<Rightarrow> binop result Kind_Or
      | BC_OPCODE_AND \<Rightarrow> binop result Kind_And
      | BC_OPCODE_XOR \<Rightarrow> binop result Kind_Xor
      | BC_OPCODE_LSL \<Rightarrow> binop result Kind_Lsl
      | BC_OPCODE_LSR \<Rightarrow> binop result Kind_Lsr
      | BC_OPCODE_EQ \<Rightarrow> binop result Kind_Eq
      | BC_OPCODE_NE \<Rightarrow> binop result Kind_Ne
      | BC_OPCODE_LT \<Rightarrow> binop result Kind_Lt
      | BC_OPCODE_LE \<Rightarrow> binop result Kind_Le
      | BC_OPCODE_GT \<Rightarrow> binop result Kind_Gt
      | BC_OPCODE_GE \<Rightarrow> binop result Kind_Ge
      | BC_OPCODE_EQSTR \<Rightarrow> binop result Kind_EqStr
      | BC_OPCODE_NESTR \<Rightarrow> binop result Kind_NeStr
      | BC_OPCODE_NEG \<Rightarrow> unop result Kind_Neg
      | BC_OPCODE_NOT \<Rightarrow> unop result Kind_Not
      | BC_OPCODE_MVN \<Rightarrow> unop result Kind_BitwiseNot
      | BC_OPCODE_CALL \<Rightarrow> (case vec_at (scenes script) (size_t_of (operand ins)) of
             Inl e \<Rightarrow> Inl e
           | Inr sc \<Rightarrow> call result (name sc) (argCnt sc))
      | BC_OPCODE_CALLEXT \<Rightarrow> (case get_cstr script (unat (signed_drop_bit 8 (operand ins))) of
             Inl e \<Rightarrow> Inl e
           | Inr str \<Rightarrow> call result str (unat (operand ins AND 0xFF)))
      | BC_OPCODE_RETURN \<Rightarrow> expect_push result (\<lambda>back.
            Inr (set_back result (back\<lparr> skind := Stmt_Return \<rparr>)))
      | BC_OPCODE_B \<Rightarrow> Inr (result @ [make_goto (operand ins)])
      | BC_OPCODE_BN \<Rightarrow> expect_push result (\<lambda>back.
            case child0 back of
              Inl e \<Rightarrow> Inl e
            | Inr expr \<Rightarrow>
                Inr (butlast result
                       @ [make_goto_if (operand ins) (make_unique_unop Kind_Not expr)]))
      | BC_OPCODE_BY \<Rightarrow> expect_push result (\<lambda>back.
            case child0 back of
              Inl e \<Rightarrow> Inl e
            | Inr expr \<Rightarrow> Inr (butlast result @ [make_goto_if (operand ins) expr]))
      | BC_OPCODE_YIELD \<Rightarrow> Inr (result @ [make_yield])
      | BC_OPCODE_40 \<Rightarrow> Inr result
      | BC_OPCODE_PRINTF \<Rightarrow> back_kind Stmt_Expr (call result ''__printf'' (unat (operand ins)))
      | BC_OPCODE_DUP \<Rightarrow> expect_push result (\<lambda>back.
            case child0 back of
              Inl e \<Rightarrow> Inl e
            | Inr c \<Rightarrow> Inr (result @ [make_push (make_unique_copy c)]))
      | BC_OPCODE_RETN \<Rightarrow> Inr (result @ [make_return (make_unique_intlit 0)])
      | BC_OPCODE_RETY \<Rightarrow> Inr (result @ [make_return (make_unique_intlit 1)])
      | BC_OPCODE_ASSIGN \<Rightarrow> back_kind Stmt_Expr (binop result Kind_Assign)
      | BC_FAKEOP_LAND \<Rightarrow> binop result Kind_LogicalAnd
      | BC_FAKEOP_LORR \<Rightarrow> binop result Kind_LogicalOr
      | BC_OPCODE_BKY \<Rightarrow> Inl ThrowFalse
      | BC_OPCODE_BKN \<Rightarrow> Inl ThrowFalse
      | BC_UNNAMED b \<Rightarrow> Inl ThrowFalse)"

text \<open>The loop over the slice (line 604); an exception ends it.\<close>

fun make_statements_loop ::
  "ScriptInfo \<Rightarrow> SceneInfo \<Rightarrow> DisIns list \<Rightarrow> Stmt list \<Rightarrow> error + Stmt list" where
  "make_statements_loop script scene [] result = Inr result"
| "make_statements_loop script scene (ins # rest) result =
     (case exec_ins script scene ins result of
        Inl e \<Rightarrow> Inl e
      | Inr result' \<Rightarrow> make_statements_loop script scene rest result')"

definition make_statements :: "ScriptInfo \<Rightarrow> SceneInfo \<Rightarrow> DisIns list \<Rightarrow> error + Stmt list" where
  "make_statements script scene sl = make_statements_loop script scene sl []"

section \<open>An instance of the bytecode header\<close>

text \<open>
  A concrete header, for evaluating the functions on concrete scripts. It lists a few
  opcodes with their byte, and their operand size in bytes. \<^verbatim>\<open>BC_OPCODE_CALL\<close> is byte
  \<open>0x37\<close> with a one-byte operand (comment at line 154), the jumps have a two-byte operand, the
  returns have none; both dialects accept exactly the listed opcodes. The theorems below hold
  for every header; this one only serves the concrete examples.
\<close>

definition example_table :: "(byte_type \<times> opcode \<times> nat) list" where
  "example_table =
     [(0x00, BC_OPCODE_NOP, 0), (0x01, BC_OPCODE_VAL8, 1), (0x19, BC_OPCODE_NUMBER8, 1),
      (0x37, BC_OPCODE_CALL, 1), (0x39, BC_OPCODE_RETURN, 0),
      (0x3A, BC_OPCODE_B, 2), (0x3B, BC_OPCODE_BY, 2), (0x3C, BC_OPCODE_BKY, 2),
      (0x3D, BC_OPCODE_BN, 2), (0x3E, BC_OPCODE_BKN, 2),
      (0x3F, BC_OPCODE_YIELD, 0), (0x40, BC_OPCODE_40, 0),
      (0x43, BC_OPCODE_RETN, 0), (0x44, BC_OPCODE_RETY, 0)]"

definition example_header :: bytecode_header where
  "example_header =
     \<lparr> opcode_of = (\<lambda>b. case find (\<lambda>(c, op, w). c = b) example_table of
                          Some (c, op, w) \<Rightarrow> op | None \<Rightarrow> BC_UNNAMED b),
       operandSize = (\<lambda>op. case find (\<lambda>(c, op', w). op' = op) example_table of
                          Some (c, op', w) \<Rightarrow> w | None \<Rightarrow> 0),
       isJump = jump_case,
       valid = (\<lambda>fe10 op. op \<in> set (map (\<lambda>(c, op', w). op') example_table)) \<rparr>"

section \<open>Vocabulary of the properties\<close>

text \<open>
  The running maximum of the jump targets of a decoded prefix, read unsigned as
  \<^verbatim>\<open>(unsigned) ins.operand\<close> is: the value \<^verbatim>\<open>lastJump\<close> has after decoding the prefix.
\<close>

definition lastJump_of :: "DisIns list \<Rightarrow> nat" where
  "lastJump_of res =
     foldl (\<lambda>m x. if jump_case (opcode x) then max m (unat (operand x)) else m) 0 res"

text \<open>The cursor after the operand of the instruction \<open>x\<close>, read again from the bytes.\<close>

definition ins_end :: "bytecode_header \<Rightarrow> bool \<Rightarrow> byte_type list \<Rightarrow> DisIns \<Rightarrow> nat" where
  "ins_end T IsFE10 bytes x =
     (case read_operand T IsFE10 bytes (opcode x) (location x + 1) of
        Inr (v, i) \<Rightarrow> i
      | Inl e \<Rightarrow> location x + 1)"

text \<open>
  The displacement that a jump encodes, stated on the bytes alone: \<open>be_nat\<close> is the number
  the operand bytes write in base 256, first byte most significant, and \<open>displacement\<close> reads
  it as a two's complement number of that many bytes. Neither uses a function of the decoder.
\<close>

fun be_nat :: "byte_type list \<Rightarrow> nat" where
  "be_nat [] = 0"
| "be_nat (b # bs) = unat b * 256 ^ length bs + be_nat bs"

definition displacement :: "byte_type list \<Rightarrow> int" where
  "displacement bs =
     (if bs \<noteq> [] \<and> 256 ^ length bs \<le> 2 * be_nat bs
      then int (be_nat bs) - 256 ^ length bs
      else int (be_nat bs))"

text \<open>
  \<open>decoded_at\<close>: the instruction \<open>x\<close> is what one turn of the loop produces at \<open>location x\<close>.
  \<open>chain_ok\<close>: each instruction but the last is followed by the instruction decoded at the
  cursor it left, bytes remained there, and it did not end the decoding. \<open>dec_inv\<close> is the
  invariant of the decoding loop.
\<close>

definition decoded_at :: "bytecode_header \<Rightarrow> bool \<Rightarrow> byte_type list \<Rightarrow> DisIns \<Rightarrow> bool" where
  "decoded_at T IsFE10 bytes x \<longleftrightarrow>
     location x < length bytes \<and>
     opcode x = opcode_of T (bytes ! location x) \<and>
     valid T IsFE10 (opcode x) \<and>
     (\<exists>v i. read_operand T IsFE10 bytes (opcode x) (location x + 1) = Inr (v, i) \<and>
        operand x =
          (if jump_case (opcode x)
           then word_of_nat i + v - word_of_nat (operandSize T (opcode x)) else v))"

definition chain_ok :: "bytecode_header \<Rightarrow> bool \<Rightarrow> byte_type list \<Rightarrow> DisIns list \<Rightarrow> bool" where
  "chain_ok T IsFE10 bytes res \<longleftrightarrow>
     (\<forall>k. Suc k < length res \<longrightarrow>
        location (res ! Suc k) = ins_end T IsFE10 bytes (res ! k) \<and>
        ins_end T IsFE10 bytes (res ! k) < length bytes \<and>
        \<not> (return_case (opcode (res ! k)) \<and>
           ins_end T IsFE10 bytes (res ! k) > lastJump_of (take (Suc k) res)))"

definition dec_inv :: "bytecode_header \<Rightarrow> bool \<Rightarrow> byte_type list \<Rightarrow> dec_state \<Rightarrow> bool" where
  "dec_inv T IsFE10 bytes st \<longleftrightarrow>
     (\<forall>x \<in> set (dec_result st). decoded_at T IsFE10 bytes x) \<and>
     dec_lastJump st = lastJump_of (dec_result st) \<and>
     (dec_result st = [] \<longrightarrow> dec_i st = 0 \<and> \<not> dec_ended st) \<and>
     (dec_result st \<noteq> [] \<longrightarrow>
        dec_i st = ins_end T IsFE10 bytes (last (dec_result st)) \<and>
        (dec_ended st \<longleftrightarrow>
           return_case (opcode (last (dec_result st))) \<and>
           ins_end T IsFE10 bytes (last (dec_result st)) > lastJump_of (dec_result st))) \<and>
     chain_ok T IsFE10 bytes (dec_result st)"

text \<open>
  For the rewrite: a branch-and-keep instruction, and the slices that hold a branch-and-keep
  whose target is not the location of any later instruction of the slice.
\<close>

definition is_bk :: "DisIns \<Rightarrow> bool" where
  "is_bk x \<longleftrightarrow> opcode x = BC_OPCODE_BKN \<or> opcode x = BC_OPCODE_BKY"

definition bk_target_outside :: "DisIns list \<Rightarrow> bool" where
  "bk_target_outside sl =
     list_ex (\<lambda>i. is_bk (sl ! i) \<and>
                list_all (\<lambda>j. location (sl ! j) \<noteq> unat (operand (sl ! i)))
                  [Suc i ..< length sl])
       [0 ..< length sl]"

text \<open>The slice points that one instruction contributes.\<close>

definition ins_points :: "bytecode_header \<Rightarrow> bool \<Rightarrow> DisIns \<Rightarrow> nat set" where
  "ins_points T ig ins =
     (if \<not> (ig \<and> is_bk ins) \<and> isJump T (opcode ins)
      then {location ins + 1 + operandSize T (opcode ins), size_t_of (operand ins)}
      else {})
     \<union> (if opcode ins = BC_OPCODE_RETURN then {location ins + 1} else {})"

section \<open>The decoding loop and its invariant\<close>

lemma decode_while_invariant:
  assumes "decode_while T f bytes st = Inr st'"
      and "P st"
      and "\<And>s s'. P s \<Longrightarrow> \<not> dec_ended s \<Longrightarrow> dec_i s < length bytes \<Longrightarrow>
             decode_step T f bytes s = Inr s' \<Longrightarrow> P s'"
  shows "P st' \<and> (dec_ended st' \<or> length bytes \<le> dec_i st')"
  using assms
proof (induction T f bytes st rule: decode_while.induct)
  case (1 T f bytes st)
  show ?case
  proof (cases "\<not> dec_ended st \<and> dec_i st < length bytes")
    case True
    with "1.prems"(1) obtain s' where
      step: "decode_step T f bytes st = Inr s'" and
      rest: "decode_while T f bytes s' = Inr st'"
      by (auto simp: decode_while.simps [of T f bytes st] split: sum.splits)
    from True step "1.prems"(2,3) have Ps': "P s'" by blast
    show ?thesis
      by (rule "1.IH" [OF True step rest Ps']) (rule "1.prems"(3))
  next
    case False
    with "1.prems"(1) have "st' = st"
      by (auto simp: decode_while.simps [of T f bytes st])
    with False "1.prems"(2) show ?thesis by auto
  qed
qed

lemma jump_not_return: "jump_case op \<Longrightarrow> \<not> return_case op"
  by (auto simp: jump_case_def return_case_def)

lemma lastJump_of_snoc:
  "lastJump_of (res @ [x]) =
     (if jump_case (opcode x) then max (lastJump_of res) (unat (operand x)) else lastJump_of res)"
  by (simp add: lastJump_of_def)

lemma lastJump_of_Nil: "lastJump_of [] = 0"
  by (simp add: lastJump_of_def)

lemma decode_step_shape:
  assumes "decode_step T f bytes st = Inr st'" and "dec_i st < length bytes"
  obtains x where
    "dec_result st' = dec_result st @ [x]"
    "location x = dec_i st"
    "decoded_at T f bytes x"
    "dec_i st' = ins_end T f bytes x"
    "dec_lastJump st' =
       (if jump_case (opcode x) then max (dec_lastJump st) (unat (operand x))
        else dec_lastJump st)"
    "dec_ended st' \<longleftrightarrow>
       dec_ended st \<or> (return_case (opcode x) \<and> ins_end T f bytes x > dec_lastJump st)"
proof -
  let ?op = "opcode_of T (bytes ! dec_i st)"
  from assms(1) obtain v i v' lastJump' ended' where
    ok: "valid T f ?op" and
    r: "read_operand T f bytes ?op (dec_i st + 1) = Inr (v, i)" and
    sw: "decode_switch T ?op i v (dec_lastJump st) (dec_ended st) = (v', lastJump', ended')" and
    st': "st' = \<lparr> dec_i = i, dec_lastJump = lastJump', dec_ended = ended',
             dec_result = dec_result st @ [\<lparr> location = dec_i st, opcode = ?op, operand = v' \<rparr>] \<rparr>"
    by (rule decode_step_Inr)
  let ?x = "\<lparr> location = dec_i st, opcode = ?op, operand = v' \<rparr>"
  have 1: "dec_result st' = dec_result st @ [?x]" using st' by simp
  have 2: "location ?x = dec_i st" by simp
  have v': "v' = (if jump_case ?op
           then word_of_nat i + v - word_of_nat (operandSize T ?op) else v)"
    using sw by (auto simp: decode_switch_def Let_def split: if_splits)
  have 3: "decoded_at T f bytes ?x"
    unfolding decoded_at_def using assms(2) ok r v' by simp
  have 4: "dec_i st' = ins_end T f bytes ?x"
    using st' r by (simp add: ins_end_def)
  have 5: "dec_lastJump st' =
       (if jump_case (opcode ?x) then max (dec_lastJump st) (unat (operand ?x))
        else dec_lastJump st)"
    using sw st' by (auto simp: decode_switch_def Let_def split: if_splits)
  have 6: "dec_ended st' \<longleftrightarrow>
       dec_ended st \<or> (return_case (opcode ?x) \<and> ins_end T f bytes ?x > dec_lastJump st)"
    using sw st' r jump_not_return [of ?op]
    by (auto simp: decode_switch_def Let_def ins_end_def split: if_splits)
  from 1 2 3 4 5 6 show ?thesis by (rule that)
qed

lemma dec_inv_init: "dec_inv T f bytes decode_init"
  by (simp add: dec_inv_def decode_init_def lastJump_of_Nil chain_ok_def)

lemma chain_ok_snoc:
  assumes "chain_ok T f bytes res"
    and "res \<noteq> [] \<Longrightarrow> location x = ins_end T f bytes (last res) \<and>
           ins_end T f bytes (last res) < length bytes \<and>
           \<not> (return_case (opcode (last res)) \<and>
              ins_end T f bytes (last res) > lastJump_of res)"
  shows "chain_ok T f bytes (res @ [x])"
  unfolding chain_ok_def
proof (intro allI impI)
  fix k assume k: "Suc k < length (res @ [x])"
  show "location ((res @ [x]) ! Suc k) = ins_end T f bytes ((res @ [x]) ! k) \<and>
        ins_end T f bytes ((res @ [x]) ! k) < length bytes \<and>
        \<not> (return_case (opcode ((res @ [x]) ! k)) \<and>
           ins_end T f bytes ((res @ [x]) ! k) > lastJump_of (take (Suc k) (res @ [x])))"
  proof (cases "Suc k < length res")
    case True
    then have "(res @ [x]) ! Suc k = res ! Suc k" "(res @ [x]) ! k = res ! k"
      "take (Suc k) (res @ [x]) = take (Suc k) res"
      by (simp_all add: nth_append)
    with assms(1) True show ?thesis by (simp add: chain_ok_def)
  next
    case False
    with k have len: "Suc k = length res" by simp
    then have ne: "res \<noteq> []" by auto
    from len have k': "k = length res - 1" by simp
    from len have "(res @ [x]) ! Suc k = x" "(res @ [x]) ! k = last res"
      "take (Suc k) (res @ [x]) = res"
      using ne by (simp_all add: nth_append last_conv_nth k')
    with assms(2) [OF ne] show ?thesis by simp
  qed
qed

lemma dec_inv_step:
  assumes inv: "dec_inv T f bytes st" and ne: "\<not> dec_ended st" and lt: "dec_i st < length bytes"
    and step: "decode_step T f bytes st = Inr st'"
  shows "dec_inv T f bytes st'"
proof -
  from step lt obtain x where
    res: "dec_result st' = dec_result st @ [x]" and
    loc: "location x = dec_i st" and
    dx: "decoded_at T f bytes x" and
    i': "dec_i st' = ins_end T f bytes x" and
    lj: "dec_lastJump st' =
       (if jump_case (opcode x) then max (dec_lastJump st) (unat (operand x))
        else dec_lastJump st)" and
    en: "dec_ended st' \<longleftrightarrow>
       dec_ended st \<or> (return_case (opcode x) \<and> ins_end T f bytes x > dec_lastJump st)"
    by (rule decode_step_shape)
  let ?res = "dec_result st"
  from inv have a: "\<forall>x \<in> set ?res. decoded_at T f bytes x"
    and b: "dec_lastJump st = lastJump_of ?res"
    and c: "?res \<noteq> [] \<Longrightarrow> dec_i st = ins_end T f bytes (last ?res)"
    and d: "?res \<noteq> [] \<Longrightarrow> (dec_ended st \<longleftrightarrow>
           return_case (opcode (last ?res)) \<and>
           ins_end T f bytes (last ?res) > lastJump_of ?res)"
    and e: "chain_ok T f bytes ?res"
    by (simp_all add: dec_inv_def)
  have 1: "\<forall>y \<in> set (dec_result st'). decoded_at T f bytes y"
    using a dx res by simp
  have 2: "dec_lastJump st' = lastJump_of (dec_result st')"
    using lj b res by (simp add: lastJump_of_snoc)
  have 3: "dec_i st' = ins_end T f bytes (last (dec_result st'))"
    using i' res by simp
  have "return_case (opcode x) \<Longrightarrow> lastJump_of (?res @ [x]) = lastJump_of ?res"
    using jump_not_return [of "opcode x"] by (auto simp: lastJump_of_snoc)
  then have 4: "dec_ended st' \<longleftrightarrow>
           return_case (opcode (last (dec_result st'))) \<and>
           ins_end T f bytes (last (dec_result st')) > lastJump_of (dec_result st')"
    using en ne b res by auto
  have 5: "chain_ok T f bytes (dec_result st')"
    unfolding res
  proof (rule chain_ok_snoc [OF e])
    assume n: "?res \<noteq> []"
    from c [OF n] d [OF n] ne lt loc
    show "location x = ins_end T f bytes (last ?res) \<and>
           ins_end T f bytes (last ?res) < length bytes \<and>
           \<not> (return_case (opcode (last ?res)) \<and>
              ins_end T f bytes (last ?res) > lastJump_of ?res)"
      by simp
  qed
  from 1 2 3 4 5 res show ?thesis by (simp add: dec_inv_def)
qed

lemma decode_while_inv:
  assumes "decode_while T f bytes decode_init = Inr st"
  shows "dec_inv T f bytes st \<and> (dec_ended st \<or> length bytes \<le> dec_i st)"
  using assms dec_inv_init
  by (rule decode_while_invariant) (rule dec_inv_step)

lemma decode_script_state:
  assumes "decode_script T f bytes = Inr res"
  obtains st where "decode_while T f bytes decode_init = Inr st" "dec_result st = res"
  using assms by (auto simp: decode_script_def split: sum.splits)

lemma read_operand_return:
  assumes "return_case op" and "read_operand T f bytes op i = Inr (v, i')"
  shows "i' = i + operandSize T op"
  using assms
  by (auto simp: read_operand_def return_case_def Let_def split: if_splits)

lemma ins_end_return:
  assumes "decoded_at T f bytes x" and "return_case (opcode x)"
  shows "ins_end T f bytes x = location x + 1 + operandSize T (opcode x)"
proof -
  from assms(1) obtain v i where
    r: "read_operand T f bytes (opcode x) (location x + 1) = Inr (v, i)"
    by (auto simp: decoded_at_def)
  from read_operand_return [OF assms(2) r] r show ?thesis
    by (simp add: ins_end_def)
qed

lemma read_operand_jump:
  assumes "jump_case op" and "read_operand T f bytes op i = Inr (v, i')"
  shows "i' = i + operandSize T op \<and>
         v = (if operandSize T op > 0
              then sign_extend (decode_int_be (take (operandSize T op) (drop i bytes)))
                     (operandSize T op * 8)
              else 0)"
  using assms
  by (auto simp: read_operand_def jump_case_def Let_def split: if_splits)

text \<open>
  Every decoded instruction lies inside the script with its operand; when it has an operand,
  one more byte follows it, because the check at line 141 is \<^verbatim>\<open>>=\<close>.
\<close>

lemma decode_script_bound:
  assumes "decode_script T IsFE10 bytes = Inr res" and "x \<in> set res"
  shows "location x + 1 + operandSize T (opcode x) \<le> length bytes \<and>
         (0 < operandSize T (opcode x) \<longrightarrow>
            location x + 1 + operandSize T (opcode x) < length bytes)"
proof -
  from assms(1) obtain st where w: "decode_while T IsFE10 bytes decode_init = Inr st"
    and res: "dec_result st = res"
    by (rule decode_script_state)
  from decode_while_inv [OF w] res assms(2) have "decoded_at T IsFE10 bytes x"
    by (simp add: dec_inv_def)
  then show ?thesis
    by (auto simp: decoded_at_def read_operand_def Let_def split: if_splits)
qed

section \<open>Termination of the decoding at a return\<close>

text \<open>
  Claim C1. For every script byte span, the instruction decoder stops at a terminating opcode
  (\<^verbatim>\<open>RETURN\<close>, \<^verbatim>\<open>RETN\<close>, \<^verbatim>\<open>RETY\<close>) if and only if the cursor position after that opcode is
  strictly greater than the running maximum of all jump targets seen so far; a return decoded
  at a position not past the last forward jump target does not terminate decoding, and decoding
  continues with the next instruction.

  In a successful decoding \<open>res\<close>, let the instruction at index \<open>k\<close> be a return, \<open>e\<close> the cursor
  after it and \<open>lj\<close> the maximum of the jump targets of the instructions up to it. If \<open>lj < e\<close>
  the return is the last instruction of \<open>res\<close>, whatever bytes follow it. If \<open>e \<le> lj\<close> and bytes
  remain, \<open>res\<close> goes on with the instruction decoded at \<open>e\<close>. So a return is the last decoded
  instruction exactly when \<open>lj < e\<close>, or when the byte span itself ends at \<open>e\<close>, where the loop
  has nothing left to decode.
\<close>

theorem decode_stops_at_return_iff:
  assumes dec: "decode_script T IsFE10 bytes = Inr res"
    and k: "k < length res"
    and ret: "return_case (opcode (res ! k))"
  shows "(lastJump_of (take (Suc k) res) < location (res ! k) + 1 + operandSize T (opcode (res ! k))
            \<longrightarrow> Suc k = length res) \<and>
         (location (res ! k) + 1 + operandSize T (opcode (res ! k)) \<le> lastJump_of (take (Suc k) res)
            \<and> location (res ! k) + 1 + operandSize T (opcode (res ! k)) < length bytes
            \<longrightarrow> Suc k < length res \<and>
                location (res ! Suc k) = location (res ! k) + 1 + operandSize T (opcode (res ! k))) \<and>
         (Suc k = length res \<longleftrightarrow>
            lastJump_of (take (Suc k) res) < location (res ! k) + 1 + operandSize T (opcode (res ! k))
            \<or> length bytes \<le> location (res ! k) + 1 + operandSize T (opcode (res ! k)))"
proof -
  from dec obtain st where w: "decode_while T IsFE10 bytes decode_init = Inr st"
    and res: "dec_result st = res"
    by (rule decode_script_state)
  from decode_while_inv [OF w] have inv: "dec_inv T IsFE10 bytes st"
    and fin: "dec_ended st \<or> length bytes \<le> dec_i st"
    by simp_all
  from inv res k have "decoded_at T IsFE10 bytes (res ! k)"
    by (auto simp: dec_inv_def)
  from ins_end_return [OF this ret]
  have e: "ins_end T IsFE10 bytes (res ! k) = location (res ! k) + 1 + operandSize T (opcode (res ! k))" .
  let ?e = "location (res ! k) + 1 + operandSize T (opcode (res ! k))"
  let ?lj = "lastJump_of (take (Suc k) res)"
  show ?thesis
  proof (cases "Suc k < length res")
    case True
    from inv res have "chain_ok T IsFE10 bytes res" by (simp add: dec_inv_def)
    with True have
      "location (res ! Suc k) = ins_end T IsFE10 bytes (res ! k) \<and>
        ins_end T IsFE10 bytes (res ! k) < length bytes \<and>
        \<not> (return_case (opcode (res ! k)) \<and>
           ins_end T IsFE10 bytes (res ! k) > lastJump_of (take (Suc k) res))"
      unfolding chain_ok_def by blast
    with ret have "location (res ! Suc k) = ?e" "?e < length bytes" "\<not> ?lj < ?e"
      unfolding e by simp_all
    with True show ?thesis by simp
  next
    case False
    with k have len: "Suc k = length res" by simp
    then have ne: "res \<noteq> []" by auto
    from len have k': "k = length res - 1" by simp
    have l: "last res = res ! k" using ne by (simp add: k' last_conv_nth)
    have t: "take (Suc k) res = res" using len by simp
    from inv res ne have
      "dec_i st = ins_end T IsFE10 bytes (last res)"
      "dec_ended st \<longleftrightarrow> return_case (opcode (last res)) \<and>
           ins_end T IsFE10 bytes (last res) > lastJump_of res"
      by (simp_all add: dec_inv_def)
    then have "dec_i st = ?e" "dec_ended st \<longleftrightarrow> ?lj < ?e"
      unfolding l e t using ret by simp_all
    with fin have "?lj < ?e \<or> length bytes \<le> ?e" by simp
    with len show ?thesis by (simp add: t) linarith
  qed
qed

theorem decode_stops_at_return_iff_witness:
  "decode_script example_header True [0x3D, 0x00, 0x03, 0x43, 0x43] =
     Inr [\<lparr>location = 0, opcode = BC_OPCODE_BN, operand = 4\<rparr>,
          \<lparr>location = 3, opcode = BC_OPCODE_RETN, operand = 0\<rparr>,
          \<lparr>location = 4, opcode = BC_OPCODE_RETN, operand = 0\<rparr>] \<and>
   lastJump_of [\<lparr>location = 0, opcode = BC_OPCODE_BN, operand = 4\<rparr>,
                \<lparr>location = 3, opcode = BC_OPCODE_RETN, operand = 0\<rparr>] = 4 \<and>
   location \<lparr>location = 3, opcode = BC_OPCODE_RETN, operand = 0\<rparr> + 1
     + operandSize example_header BC_OPCODE_RETN = 4 \<and>
   (4::nat) < length [0x3D, 0x00, 0x03, 0x43, 0x43 :: byte_type] \<and>
   Suc 1 < length [\<lparr>location = 0, opcode = BC_OPCODE_BN, operand = 4\<rparr>,
          \<lparr>location = 3, opcode = BC_OPCODE_RETN, operand = 0\<rparr>,
          \<lparr>location = 4, opcode = BC_OPCODE_RETN, operand = 0 :: 32 word\<rparr>]"
proof -
  let ?bytes = "[0x3D, 0x00, 0x03, 0x43, 0x43] :: byte_type list"
  let ?res = "[\<lparr>location = 0, opcode = BC_OPCODE_BN, operand = 4\<rparr>,
          \<lparr>location = 3, opcode = BC_OPCODE_RETN, operand = 0\<rparr>,
          \<lparr>location = 4, opcode = BC_OPCODE_RETN, operand = 0 :: 32 word\<rparr>]"
  have d: "decode_script example_header True ?bytes = Inr ?res" by code_simp
  have k: "1 < length ?res" by simp
  have r: "return_case (opcode (?res ! 1))" by (simp add: return_case_def)
  have lj: "lastJump_of (take (Suc 1) ?res) = 4"
    by (simp add: lastJump_of_def jump_case_def)
  have e: "location (?res ! 1) + 1 + operandSize example_header (opcode (?res ! 1)) = 4"
    by (simp add: example_header_def example_table_def)
  from decode_stops_at_return_iff [OF d k r] lj e
  have "Suc 1 < length ?res" by simp
  with d lj e show ?thesis by (simp add: lastJump_of_def jump_case_def)
qed

section \<open>Operands at the end of the script\<close>

text \<open>
  Claim C2. For every decoded instruction \<open>x\<close>, \<open>location x + 1 + operand_width\<close> is at most
  the length of the script byte span, decoding an instruction that would violate this bound is
  a hard error, and an instruction whose operand ends exactly at the end of the script decodes
  successfully.

  The bound holds (\<open>decode_script_bound\<close>), but the last part fails on the code: the check at
  line 141 is \<^verbatim>\<open>i + operandSize >= bytes.size()\<close>, so an instruction with an operand that ends
  exactly at the end of the script is rejected with "Reached end of script when expecting
  operand", although all its operand bytes are there. The theorem evaluates the loop at every
  such instruction.
\<close>

theorem decode_operand_ending_at_end_is_rejected:
  assumes "dec_i st + 1 + operandSize T (opcode_of T (bytes ! dec_i st)) = length bytes"
    and "0 < operandSize T (opcode_of T (bytes ! dec_i st))"
    and "valid T IsFE10 (opcode_of T (bytes ! dec_i st))"
    and "\<not> dec_ended st"
  shows "decode_step T IsFE10 bytes st = Inl ReachedEndOfScript \<and>
         decode_while T IsFE10 bytes st = Inl ReachedEndOfScript"
proof -
  from assms(1,2) have
    "read_operand T IsFE10 bytes (opcode_of T (bytes ! dec_i st)) (dec_i st + 1)
       = Inl ReachedEndOfScript"
    by (simp add: read_operand_def)
  with assms(3) have s: "decode_step T IsFE10 bytes st = Inl ReachedEndOfScript"
    by (simp add: decode_step_def)
  from assms(1,2) have "dec_i st < length bytes" by simp
  with assms(4) s have "decode_while T IsFE10 bytes st = Inl ReachedEndOfScript"
    by (simp add: decode_while.simps [of T IsFE10 bytes st])
  with s show ?thesis by simp
qed

theorem decode_operand_ending_at_end_is_rejected_witness:
  "dec_i decode_init + 1
     + operandSize example_header (opcode_of example_header ([0x19, 0x02] ! dec_i decode_init))
     = length [0x19, 0x02 :: byte_type] \<and>
   opcode_of example_header ([0x19, 0x02] ! dec_i decode_init) = BC_OPCODE_NUMBER8 \<and>
   valid example_header True BC_OPCODE_NUMBER8 \<and>
   decode_while example_header True [0x19, 0x02] decode_init = Inl ReachedEndOfScript \<and>
   decode_script example_header True [0x19, 0x02] = Inl ReachedEndOfScript"
proof -
  let ?bytes = "[0x19, 0x02] :: byte_type list"
  have op: "opcode_of example_header (?bytes ! dec_i decode_init) = BC_OPCODE_NUMBER8"
    by (simp add: decode_init_def example_header_def example_table_def)
  have w: "operandSize example_header BC_OPCODE_NUMBER8 = 1"
    by (simp add: example_header_def example_table_def)
  have v: "valid example_header True BC_OPCODE_NUMBER8"
    by (simp add: example_header_def example_table_def)
  have h1: "dec_i decode_init + 1
      + operandSize example_header (opcode_of example_header (?bytes ! dec_i decode_init))
      = length ?bytes"
    unfolding op w by (simp add: decode_init_def)
  have h2: "0 < operandSize example_header (opcode_of example_header (?bytes ! dec_i decode_init))"
    unfolding op w by simp
  have h3: "valid example_header True (opcode_of example_header (?bytes ! dec_i decode_init))"
    unfolding op by (rule v)
  have h4: "\<not> dec_ended decode_init" by (simp add: decode_init_def)
  from decode_operand_ending_at_end_is_rejected [OF h1 h2 h3 h4]
  have "decode_while example_header True ?bytes decode_init = Inl ReachedEndOfScript" by simp
  with h1 op v show ?thesis by (simp add: decode_script_def)
qed

section \<open>Variable-length operand of CALL\<close>

lemma decode_int_be_single: "decode_int_be [b] = ucast b"
  by (simp add: decode_int_be_def)

lemma bit_128_int: "bit (128 :: int) n \<longleftrightarrow> n = 7"
  using bit_exp_iff [where ?'a = int, of 7 n] by simp

lemma bit_127_int: "bit (127 :: int) n \<longleftrightarrow> n < 7"
  using bit_mask_iff [where ?'a = int, of 7 n] by (simp add: mask_eq_exp_minus_1)

lemma high_bit_iff32: "(w :: 32 word) AND 0x80 = 0 \<longleftrightarrow> \<not> bit w 7"
proof
  assume "w AND 0x80 = 0"
  then have "\<not> bit (w AND 0x80) 7" by simp
  then show "\<not> bit w 7" by (simp add: bit_and_iff bit_128_int)
next
  assume "\<not> bit w 7"
  then show "w AND 0x80 = 0"
    by - (rule bit_word_eqI, auto simp: bit_and_iff bit_128_int)
qed

lemma bit7_sext8: "bit (sign_extend (ucast (b :: 8 word)) 8) 7 \<longleftrightarrow> bit b 7"
  unfolding sign_extend_def Let_def
  by (auto simp: bit_simps)

lemma sext8_low: "sign_extend (ucast (b :: 8 word)) 8 AND 0x7F = ucast (b AND 0x7F)"
  unfolding sign_extend_def Let_def
  by (rule bit_word_eqI) (auto simp: bit_simps bit_127_int)

lemma sext8_pos: "\<not> bit (b :: 8 word) 7 \<Longrightarrow> sign_extend (ucast b) 8 = ucast b"
  unfolding sign_extend_def Let_def
  by (rule bit_word_eqI) (auto simp: bit_simps dest: bit_imp_le_length)

lemma shifted_add_or:
  "push_bit 8 (ucast ((b :: 8 word) AND 0x7F) :: 32 word) + ucast (c :: 8 word)
     = push_bit 8 (ucast (b AND 0x7F)) OR ucast c"
  by (rule disjunctive_add_eq_or) (auto simp: bit_eq_iff bit_simps dest: bit_imp_le_length)

lemma take1_drop: "i < length xs \<Longrightarrow> take (Suc 0) (drop i xs) = [xs ! i]"
  by (simp add: take_Suc hd_drop_conv_nth)

text \<open>
  Claim C4. In dialect A (\<^verbatim>\<open>IsFE10\<close>), when decoding a \<^verbatim>\<open>CALL\<close> whose one-byte operand has the
  high bit set, the operand is extended to 16 bits by clearing the high bit of the first
  operand byte, shifting it left 8 and OR-ing in the next byte, and the cursor advances one
  extra byte; so a first operand byte \<open>0x7F\<close> stays one byte wide and decodes to \<open>0x7F\<close>, the
  byte pair \<open>0xFF 0x00\<close> decodes to \<open>0x7F00\<close>, and \<open>0x80 0x05\<close> decodes to \<open>0x0005\<close>.

  \<open>i\<close> is the cursor after the opcode byte, and a byte follows the first operand byte, as the
  check at line 141 demands.
\<close>

theorem call_variable_length_operand:
  assumes "operandSize T BC_OPCODE_CALL = 1" and "i + 1 < length bytes"
  shows "read_operand T True bytes BC_OPCODE_CALL i =
           (if bit (bytes ! i) 7
            then Inr (push_bit 8 (ucast (bytes ! i AND 0x7F)) OR ucast (bytes ! (i + 1)), i + 2)
            else Inr (ucast (bytes ! i), i + 1)) \<and>
         (bytes ! i = 0x7F \<longrightarrow>
            read_operand T True bytes BC_OPCODE_CALL i = Inr (0x7F, i + 1)) \<and>
         (bytes ! i = 0xFF \<and> bytes ! (i + 1) = 0x00 \<longrightarrow>
            read_operand T True bytes BC_OPCODE_CALL i = Inr (0x7F00, i + 2)) \<and>
         (bytes ! i = 0x80 \<and> bytes ! (i + 1) = 0x05 \<longrightarrow>
            read_operand T True bytes BC_OPCODE_CALL i = Inr (0x0005, i + 2))"
proof -
  from assms(2) have "i < length bytes" by simp
  then have t: "take (Suc 0) (drop i bytes) = [bytes ! i]" by (rule take1_drop)
  have g: "read_operand T True bytes BC_OPCODE_CALL i =
           (if bit (bytes ! i) 7
            then Inr (push_bit 8 (ucast (bytes ! i AND 0x7F)) OR ucast (bytes ! (i + 1)), i + 2)
            else Inr (ucast (bytes ! i), i + 1))"
    using assms
    by (simp add: read_operand_def Let_def t decode_int_be_single high_bit_iff32 bit7_sext8
        sext8_low sext8_pos shifted_add_or)
  show ?thesis unfolding g by simp
qed

theorem call_variable_length_operand_witness:
  "operandSize example_header BC_OPCODE_CALL = 1 \<and>
   1 + 1 < length [0x37, 0x80, 0x05 :: byte_type] \<and>
   read_operand example_header True [0x37, 0x80, 0x05] BC_OPCODE_CALL 1 = Inr (0x0005, 3) \<and>
   decode_script example_header True [0x37, 0x80, 0x05]
     = Inr [\<lparr>location = 0, opcode = BC_OPCODE_CALL, operand = 0x0005\<rparr>] \<and>
   decode_script example_header True [0x37, 0xFF, 0x00]
     = Inr [\<lparr>location = 0, opcode = BC_OPCODE_CALL, operand = 0x7F00\<rparr>] \<and>
   decode_script example_header True [0x37, 0x7F, 0x43]
     = Inr [\<lparr>location = 0, opcode = BC_OPCODE_CALL, operand = 0x7F\<rparr>,
            \<lparr>location = 2, opcode = BC_OPCODE_RETN, operand = 0\<rparr>]"
proof -
  let ?bytes = "[0x37, 0x80, 0x05] :: byte_type list"
  have w: "operandSize example_header BC_OPCODE_CALL = 1"
    by (simp add: example_header_def example_table_def)
  have l: "1 + 1 < length ?bytes" by simp
  from call_variable_length_operand [OF w l]
  have r: "read_operand example_header True ?bytes BC_OPCODE_CALL 1 = Inr (0x0005, 3)"
    by simp
  have d1: "decode_script example_header True ?bytes
     = Inr [\<lparr>location = 0, opcode = BC_OPCODE_CALL, operand = 0x0005\<rparr>]"
    by code_simp
  have d2: "decode_script example_header True [0x37, 0xFF, 0x00]
     = Inr [\<lparr>location = 0, opcode = BC_OPCODE_CALL, operand = 0x7F00\<rparr>]"
    by code_simp
  have d3: "decode_script example_header True [0x37, 0x7F, 0x43]
     = Inr [\<lparr>location = 0, opcode = BC_OPCODE_CALL, operand = 0x7F\<rparr>,
            \<lparr>location = 2, opcode = BC_OPCODE_RETN, operand = 0\<rparr>]"
    by code_simp
  from w l r d1 d2 d3 show ?thesis by blast
qed

section \<open>Jump targets\<close>

text \<open>
  What the decoder computes from the operand bytes, \<^verbatim>\<open>decode_int_be\<close> then \<^verbatim>\<open>sign_extend\<close>,
  is the displacement they encode, for operands of one to four bytes.
\<close>

lemma be_nat_less: "be_nat bs < 256 ^ length bs"
proof (induction bs)
  case Nil
  show ?case by simp
next
  case (Cons b bs)
  let ?X = "(256::nat) ^ length bs"
  have "unat b < 256" using unsigned_less [of b] by simp
  then have "unat b + 1 \<le> 256" by simp
  then have le: "(unat b + 1) * ?X \<le> 256 * ?X" by (rule mult_le_mono1)
  from Cons.IH have "be_nat (b # bs) < (unat b + 1) * ?X" by simp
  also note le
  also have "256 * ?X = 256 ^ length (b # bs)" by simp
  finally show ?case .
qed

lemma decode_int_be_foldl:
  "foldl (\<lambda>result b. ucast b + push_bit 8 result) acc bs
     = acc * 256 ^ length bs + word_of_nat (be_nat bs)"
  for acc :: "32 word"
proof (induction bs arbitrary: acc)
  case Nil
  show ?case by simp
next
  case (Cons b bs)
  have "foldl (\<lambda>result b. ucast b + push_bit 8 result) acc (b # bs)
          = foldl (\<lambda>result b. ucast b + push_bit 8 result) (ucast b + push_bit 8 acc) bs"
    by simp
  also have "\<dots> = (ucast b + push_bit 8 acc) * 256 ^ length bs + word_of_nat (be_nat bs)"
    by (rule Cons.IH)
  also have "\<dots> = acc * 256 ^ length (b # bs) + word_of_nat (be_nat (b # bs))"
    by (simp add: push_bit_eq_mult algebra_simps)
  finally show ?case .
qed

lemma decode_int_be_be_nat: "decode_int_be bs = word_of_nat (be_nat bs)"
  by (simp add: decode_int_be_def decode_int_be_foldl)

lemma sign_extend_signed_take_bit:
  assumes "0 < bits" and "bits \<le> 32"
  shows "sign_extend v bits = signed_take_bit (bits - 1) v"
proof (rule bit_word_eqI)
  fix n assume n: "n < LENGTH(32)"
  consider (lo) "n < bits - 1" | (eq) "n = bits - 1" | (hi) "bits \<le> n"
    using assms by linarith
  then show "bit (sign_extend v bits) n \<longleftrightarrow> bit (signed_take_bit (bits - 1) v) n"
  proof cases
    case lo
    with n assms show ?thesis
      by (auto simp: sign_extend_def Let_def bit_simps min_def)
  next
    case eq
    with n assms show ?thesis
      by (auto simp: sign_extend_def Let_def bit_simps min_def)
  next
    case hi
    with n assms show ?thesis
      by (auto simp: sign_extend_def Let_def bit_simps min_def)
  qed
qed

lemma signed_take_bit_word_of_int:
  "m < 32 \<Longrightarrow> signed_take_bit m (word_of_int k :: 32 word) = word_of_int (signed_take_bit m k)"
  by (rule bit_word_eqI) (auto simp: bit_simps min_def)

lemma signed_take_bit_nat:
  assumes "n < 2 ^ Suc m"
  shows "signed_take_bit m (int n) = (if 2 ^ Suc m \<le> 2 * n then int n - 2 ^ Suc m else int n)"
proof (cases "2 ^ Suc m \<le> 2 * n")
  case False
  then have "n < 2 ^ m" by simp
  then have "int n < int (2 ^ m)" by (simp only: of_nat_less_iff)
  then have lt: "int n < 2 ^ m" by simp
  have "(0::int) \<le> int n" "(0::int) < 2 ^ m" by simp_all
  then have ge: "- (2 ^ m) \<le> int n" by linarith
  from ge lt have "signed_take_bit m (int n) = int n" by (rule signed_take_bit_int_eq_self)
  with False show ?thesis by simp
next
  case True
  let ?k = "int n - 2 ^ Suc m"
  from True have "2 ^ m \<le> n" by simp
  then have "int (2 ^ m) \<le> int n" by (simp only: of_nat_le_iff)
  then have ge: "(2::int) ^ m \<le> int n" by simp
  from assms have "int n < int (2 ^ Suc m)" by (simp only: of_nat_less_iff)
  then have lt: "int n < 2 * 2 ^ m" by simp
  have "take_bit (Suc m) (int n) = take_bit (Suc m) ?k"
    by (simp add: take_bit_eq_mod del: power_Suc)
  then have "signed_take_bit m (int n) = signed_take_bit m ?k"
    by (simp only: signed_take_bit_eq_iff_take_bit_eq)
  also have "\<dots> = ?k"
  proof (rule signed_take_bit_int_eq_self)
    show "- (2 ^ m) \<le> ?k" using ge by simp
    show "?k < 2 ^ m" using lt by simp
  qed
  finally show ?thesis using True by simp
qed

lemma pow256: "(256::nat) ^ k = 2 ^ (k * 8)"
proof -
  have "(256::nat) = 2 ^ 8" by simp
  then have "(256::nat) ^ k = (2 ^ 8) ^ k" by simp
  also have "\<dots> = 2 ^ (8 * k)" by (rule power_mult [symmetric])
  finally show ?thesis by (simp add: mult.commute)
qed

lemma sign_extend_decode_int_be:
  assumes "bs \<noteq> []" and "length bs \<le> 4"
  shows "sign_extend (decode_int_be bs) (length bs * 8) = word_of_int (displacement bs)"
proof -
  let ?bits = "length bs * 8"
  from assms have b: "0 < ?bits" "?bits \<le> 32" by simp_all
  obtain m where m: "?bits = Suc m" using b(1) by (cases ?bits) simp_all
  with b have m32: "m < 32" by simp
  have p: "(256::nat) ^ length bs = 2 ^ Suc m"
    using m by (simp only: pow256)
  have lt: "be_nat bs < 2 ^ Suc m" using be_nat_less [of bs] by (simp only: p)
  have pi: "(256::int) ^ length bs = 2 ^ Suc m"
  proof -
    have "int (256 ^ length bs) = int (2 ^ Suc m)" by (simp only: p)
    then show ?thesis by simp
  qed
  have "sign_extend (decode_int_be bs) ?bits
          = signed_take_bit m (word_of_int (int (be_nat bs)) :: 32 word)"
    using sign_extend_signed_take_bit [OF b] m by (simp add: decode_int_be_be_nat)
  also have "\<dots> = word_of_int (signed_take_bit m (int (be_nat bs)))"
    by (rule signed_take_bit_word_of_int [OF m32])
  also have "signed_take_bit m (int (be_nat bs)) = displacement bs"
    unfolding signed_take_bit_nat [OF lt] displacement_def p pi using assms(1)
    by simp
  finally show ?thesis .
qed

text \<open>
  Claim C5. For every jump instruction (\<^verbatim>\<open>B\<close>, \<^verbatim>\<open>BY\<close>, \<^verbatim>\<open>BN\<close>, \<^verbatim>\<open>BKY\<close>, \<^verbatim>\<open>BKN\<close>), the decoder
  replaces the sign-extended relative operand by the absolute target location, computed as
  the cursor position after reading the operand, plus the operand, minus the operand width:
  the stored operand of every decoded jump is the absolute target, not the encoded
  displacement.

  The operand bytes of the jump \<open>x\<close> are the \<open>operandSize\<close> bytes after its opcode byte, all
  inside the script; the cursor after them is \<open>location x + 1 + operandSize\<close>; the relative
  operand is their big-endian two's complement value \<open>displacement\<close>, negative when the top
  bit of the first byte is set. The stored operand is the sum in 32 bits. The operand sizes
  of the table are at most four bytes.
\<close>

theorem decode_jump_operand_absolute:
  assumes "decode_script T IsFE10 bytes = Inr res"
    and "x \<in> set res"
    and "jump_case (opcode x)"
    and "operandSize T (opcode x) \<le> 4"
  shows "length (take (operandSize T (opcode x)) (drop (location x + 1) bytes))
           = operandSize T (opcode x) \<and>
         operand x =
           word_of_int
             (int (location x + 1 + operandSize T (opcode x))
              + displacement (take (operandSize T (opcode x)) (drop (location x + 1) bytes))
              - int (operandSize T (opcode x)))"
proof -
  let ?w = "operandSize T (opcode x)"
  let ?bs = "take ?w (drop (location x + 1) bytes)"
  from assms(1) obtain st where w: "decode_while T IsFE10 bytes decode_init = Inr st"
    and res: "dec_result st = res"
    by (rule decode_script_state)
  from decode_while_inv [OF w] res assms(2) have "decoded_at T IsFE10 bytes x"
    by (simp add: dec_inv_def)
  with assms(3) obtain v i where
    r: "read_operand T IsFE10 bytes (opcode x) (location x + 1) = Inr (v, i)" and
    op: "operand x = word_of_nat i + v - word_of_nat ?w"
    by (auto simp: decoded_at_def)
  from read_operand_jump [OF assms(3) r] have
    i: "i = location x + 1 + ?w" and
    v: "v = (if ?w > 0 then sign_extend (decode_int_be ?bs) (?w * 8) else 0)"
    by simp_all
  from decode_script_bound [OF assms(1,2)] have "location x + 1 + ?w \<le> length bytes"
    by simp
  then have len: "length ?bs = ?w" by simp
  have vd: "v = word_of_int (displacement ?bs)"
  proof (cases "?w > 0")
    case True
    with len have ne: "?bs \<noteq> []" by auto
    from len assms(4) have le: "length ?bs \<le> 4" by simp
    from sign_extend_decode_int_be [OF ne le] True v show ?thesis
      by (simp only: len if_True)
  next
    case False
    then have "?bs = []" by simp
    with False v show ?thesis by (simp add: displacement_def)
  qed
  have tgt: "operand x = word_of_int (int (location x + 1 + ?w) + displacement ?bs - int ?w)"
    unfolding op i vd by simp
  from len tgt show ?thesis by (rule conjI)
qed

theorem decode_jump_operand_absolute_witness:
  "decode_script example_header True [0x00, 0x3A, 0xFF, 0xFE, 0x43] =
     Inr [\<lparr>location = 0, opcode = BC_OPCODE_NOP, operand = 0\<rparr>,
          \<lparr>location = 1, opcode = BC_OPCODE_B, operand = 0\<rparr>,
          \<lparr>location = 4, opcode = BC_OPCODE_RETN, operand = 0\<rparr>] \<and>
   jump_case BC_OPCODE_B \<and>
   operandSize example_header BC_OPCODE_B = 2 \<and>
   take 2 (drop (1 + 1) [0x00, 0x3A, 0xFF, 0xFE, 0x43 :: byte_type]) = [0xFF, 0xFE] \<and>
   displacement [0xFF, 0xFE] = - 2 \<and>
   (0 :: 32 word) = word_of_int (int (1 + 1 + 2) + (- 2) - int 2)"
proof -
  let ?bytes = "[0x00, 0x3A, 0xFF, 0xFE, 0x43] :: byte_type list"
  let ?x = "\<lparr>location = 1, opcode = BC_OPCODE_B, operand = 0 :: 32 word\<rparr>"
  let ?res = "[\<lparr>location = 0, opcode = BC_OPCODE_NOP, operand = 0\<rparr>, ?x,
          \<lparr>location = 4, opcode = BC_OPCODE_RETN, operand = 0 :: 32 word\<rparr>]"
  have d: "decode_script example_header True ?bytes = Inr ?res" by code_simp
  have m: "?x \<in> set ?res" by simp
  have j: "jump_case (opcode ?x)" by (simp add: jump_case_def)
  have w: "operandSize example_header BC_OPCODE_B = 2"
    by (simp add: example_header_def example_table_def)
  have w4: "operandSize example_header (opcode ?x) \<le> 4" by (simp add: w)
  have dsp: "displacement [0xFF, 0xFE] = - 2" by (simp add: displacement_def)
  from decode_jump_operand_absolute [OF d m j w4] d j w dsp show ?thesis by simp
qed

section \<open>The return that ends the decoding\<close>

text \<open>
  Claim C10. When decoding terminates because a terminating opcode (\<^verbatim>\<open>RETURN\<close>, \<^verbatim>\<open>RETN\<close>,
  \<^verbatim>\<open>RETY\<close>) was reached with the cursor past the last jump target, that instruction is itself
  appended to the output: the returned sequence is not empty and its last element is that
  return instruction. Terminating this way is the loop ending with \<^verbatim>\<open>ended\<close> set.
\<close>

theorem decode_ended_last_is_return:
  assumes "decode_while T IsFE10 bytes decode_init = Inr st"
    and "dec_ended st"
  shows "decode_script T IsFE10 bytes = Inr (dec_result st) \<and>
         dec_result st \<noteq> [] \<and>
         return_case (opcode (last (dec_result st))) \<and>
         dec_i st = location (last (dec_result st)) + 1
                      + operandSize T (opcode (last (dec_result st))) \<and>
         lastJump_of (dec_result st) < dec_i st"
proof -
  from decode_while_inv [OF assms(1)] have inv: "dec_inv T IsFE10 bytes st" by simp
  from inv assms(2) have ne: "dec_result st \<noteq> []"
    by (auto simp: dec_inv_def)
  with inv assms(2) have
    i: "dec_i st = ins_end T IsFE10 bytes (last (dec_result st))" and
    r: "return_case (opcode (last (dec_result st)))" and
    l: "ins_end T IsFE10 bytes (last (dec_result st)) > lastJump_of (dec_result st)" and
    d: "decoded_at T IsFE10 bytes (last (dec_result st))"
    by (simp_all add: dec_inv_def)
  from ins_end_return [OF d r] i l r ne assms(1) show ?thesis
    by (simp add: decode_script_def)
qed

theorem decode_ended_last_is_return_witness:
  "decode_while example_header True [0x3F, 0x43, 0x00] decode_init =
     Inr \<lparr> dec_i = 2, dec_lastJump = 0, dec_ended = True,
           dec_result = [\<lparr>location = 0, opcode = BC_OPCODE_YIELD, operand = 0\<rparr>,
                         \<lparr>location = 1, opcode = BC_OPCODE_RETN, operand = 0\<rparr>] \<rparr> \<and>
   decode_script example_header True [0x3F, 0x43, 0x00] =
     Inr [\<lparr>location = 0, opcode = BC_OPCODE_YIELD, operand = 0\<rparr>,
          \<lparr>location = 1, opcode = BC_OPCODE_RETN, operand = 0\<rparr>] \<and>
   return_case BC_OPCODE_RETN"
proof -
  let ?st = "\<lparr> dec_i = 2, dec_lastJump = 0, dec_ended = True,
           dec_result = [\<lparr>location = 0, opcode = BC_OPCODE_YIELD, operand = 0\<rparr>,
                         \<lparr>location = 1, opcode = BC_OPCODE_RETN, operand = 0 :: 32 word\<rparr>] \<rparr>"
  have w: "decode_while example_header True [0x3F, 0x43, 0x00] decode_init = Inr ?st"
    by code_simp
  have e: "dec_ended ?st" by simp
  from decode_ended_last_is_return [OF w e] w show ?thesis by simp
qed

section \<open>Branch-and-keep whose target leaves the slice\<close>

text \<open>The rewrite keeps the length of the slice and permutes the locations.\<close>

lemma bubble_props:
  "bubble sl j t = (sl', j') \<Longrightarrow> 1 \<le> j \<Longrightarrow> j \<le> length sl \<Longrightarrow>
     mset sl' = mset sl \<and> j \<le> j' \<and> j' \<le> length sl"
proof (induction sl j t rule: bubble.induct)
  case (1 sl j target)
  show ?case
  proof (cases "j < length sl \<and> location (sl ! j) \<noteq> target")
    case True
    let ?sw = "sl[j - 1 := sl ! j, j := sl ! (j - 1)]"
    from True "1.prems"(1) have b: "bubble ?sw (j + 1) target = (sl', j')"
      by (simp add: bubble.simps [of sl j target])
    from True "1.prems"(2) have "j < length sl" "j - 1 < length sl" by auto
    then have m: "mset ?sw = mset sl"
      by (rule mset_swap)
    from True have "1 \<le> j + 1" "j + 1 \<le> length ?sw" by simp_all
    from "1.IH" [OF True b this] m show ?thesis by simp
  next
    case False
    with "1.prems" show ?thesis by (simp add: bubble.simps [of sl j target])
  qed
qed

lemma map_location_fake:
  "k < length sl \<Longrightarrow>
     map location (sl[k := (sl ! k)\<lparr> opcode := op, operand := v \<rparr>]) = map location sl"
  by (simp add: map_update list_update_same_conv)

lemma convert_loop_props:
  "length (convert_loop sl i) = length sl \<and>
   mset (map location (convert_loop sl i)) = mset (map location sl)"
proof (induction sl i rule: convert_loop.induct)
  case (1 sl i)
  show ?case
  proof (cases "i < length sl")
    case False
    then show ?thesis by (simp add: convert_loop.simps [of sl i])
  next
    case lt: True
    show ?thesis
    proof (cases "opcode (sl ! i) = BC_OPCODE_BKN \<or> opcode (sl ! i) = BC_OPCODE_BKY")
      case False
      with lt have "convert_loop sl i = convert_loop sl (i + 1)"
        by (simp add: convert_loop.simps [of sl i] Let_def)
      with "1.IH"(2) [OF lt refl False] show ?thesis by simp
    next
      case bk: True
      obtain sl' j where b: "bubble sl (i + 1) (unat (operand (sl ! i))) = (sl', j)"
        by (cases "bubble sl (i + 1) (unat (operand (sl ! i)))")
      let ?new = "sl'[j - 1 := (sl' ! (j - 1))
                     \<lparr> opcode := (if opcode (sl ! i) = BC_OPCODE_BKN
                                   then BC_FAKEOP_LAND else BC_FAKEOP_LORR),
                       operand := 0 \<rparr>]"
      from lt have "1 \<le> i + 1" "i + 1 \<le> length sl" by simp_all
      from bubble_props [OF b this] have m: "mset sl' = mset sl" and j: "i + 1 \<le> j" "j \<le> length sl"
        by simp_all
      from bubble_length [OF b] have len: "length sl' = length sl" .
      from j len have k: "j - 1 < length sl'" by simp
      have ml: "mset (map location ?new) = mset (map location sl)"
        using map_location_fake [OF k] m by (metis mset_map)
      have c: "convert_loop sl i = convert_loop ?new (i + 2)"
        using lt bk b by (subst convert_loop.simps) (simp add: Let_def)
      from "1.IH"(1) [OF lt refl bk b [symmetric]] ml len show ?thesis
        unfolding c by simp
    qed
  qed
qed

text \<open>
  Claim C3. For every slice given to the logical rewrite, if it contains a \<^verbatim>\<open>BKY\<close> or \<^verbatim>\<open>BKN\<close>
  instruction whose target location does not equal the location of any later instruction
  inside the same slice, the rewrite signals an error rather than completing normally.

  The code does not do this. The rewrite has no check of the target and no \<^verbatim>\<open>throw\<close>: when
  no later instruction of the slice has the target location, the inner loop runs to the end of
  the slice, and the branch-and-keep is replaced there as if its operand ended with the
  slice. The caller's comment at line 1299 names the missing check ("check whether any
  bkn/bky jumps to another slice, because that would be bad"). In the script below the
  \<^verbatim>\<open>BKY\<close> at location 2 targets location 10, which starts the next slice; decoding and
  slicing give the slice of the first four instructions, and the rewrite returns normally.
\<close>

theorem rewrite_cross_slice_branch_not_rejected:
  "decode_script example_header True
     [0x01, 0x00, 0x3C, 0x00, 0x07, 0x01, 0x01, 0x3A, 0x00, 0x02, 0x43]
   = Inr [\<lparr>location = 0, opcode = BC_OPCODE_VAL8, operand = 0\<rparr>,
          \<lparr>location = 2, opcode = BC_OPCODE_BKY, operand = 10\<rparr>,
          \<lparr>location = 5, opcode = BC_OPCODE_VAL8, operand = 1\<rparr>,
          \<lparr>location = 7, opcode = BC_OPCODE_B, operand = 10\<rparr>,
          \<lparr>location = 10, opcode = BC_OPCODE_RETN, operand = 0\<rparr>] \<and>
   slice_script example_header True
     [\<lparr>location = 0, opcode = BC_OPCODE_VAL8, operand = 0\<rparr>,
      \<lparr>location = 2, opcode = BC_OPCODE_BKY, operand = 10\<rparr>,
      \<lparr>location = 5, opcode = BC_OPCODE_VAL8, operand = 1\<rparr>,
      \<lparr>location = 7, opcode = BC_OPCODE_B, operand = 10\<rparr>,
      \<lparr>location = 10, opcode = BC_OPCODE_RETN, operand = 0\<rparr>]
   = [(0, [\<lparr>location = 0, opcode = BC_OPCODE_VAL8, operand = 0\<rparr>,
           \<lparr>location = 2, opcode = BC_OPCODE_BKY, operand = 10\<rparr>,
           \<lparr>location = 5, opcode = BC_OPCODE_VAL8, operand = 1\<rparr>,
           \<lparr>location = 7, opcode = BC_OPCODE_B, operand = 10\<rparr>]),
      (10, [\<lparr>location = 10, opcode = BC_OPCODE_RETN, operand = 0\<rparr>])] \<and>
   bk_target_outside
     [\<lparr>location = 0, opcode = BC_OPCODE_VAL8, operand = 0\<rparr>,
      \<lparr>location = 2, opcode = BC_OPCODE_BKY, operand = 10\<rparr>,
      \<lparr>location = 5, opcode = BC_OPCODE_VAL8, operand = 1\<rparr>,
      \<lparr>location = 7, opcode = BC_OPCODE_B, operand = 10\<rparr>] \<and>
   get_bks_as_fake_logic
     [\<lparr>location = 0, opcode = BC_OPCODE_VAL8, operand = 0\<rparr>,
      \<lparr>location = 2, opcode = BC_OPCODE_BKY, operand = 10\<rparr>,
      \<lparr>location = 5, opcode = BC_OPCODE_VAL8, operand = 1\<rparr>,
      \<lparr>location = 7, opcode = BC_OPCODE_B, operand = 10\<rparr>]
   = Inr [\<lparr>location = 0, opcode = BC_OPCODE_VAL8, operand = 0\<rparr>,
          \<lparr>location = 5, opcode = BC_OPCODE_VAL8, operand = 1\<rparr>,
          \<lparr>location = 7, opcode = BC_OPCODE_B, operand = 10\<rparr>,
          \<lparr>location = 2, opcode = BC_FAKEOP_LORR, operand = 0\<rparr>]"
  by code_simp

section \<open>Branch-and-keep left by the rewrite\<close>

text \<open>
  Claim C6. For every slice, after the logical rewrite completes, no instruction in the slice
  has opcode \<^verbatim>\<open>BKY\<close> or \<^verbatim>\<open>BKN\<close>: each has been replaced by \<^verbatim>\<open>FAKE_LAND\<close> or \<^verbatim>\<open>FAKE_LORR\<close>
  with operand zero, and the locations of the other instructions are unchanged.

  The locations are kept (\<open>convert_loop_props\<close>), but the scan skips instructions: after a
  branch-and-keep at index \<open>i\<close> it goes on at \<open>i + 2\<close>, and the instructions it has moved to
  \<open>i\<close> and \<open>i + 1\<close> are never looked at. The script below is \<^verbatim>\<open>a && (b && c)\<close> followed by a
  conditional jump: the second \<^verbatim>\<open>BKN\<close> is the second instruction of the operand of the first,
  it survives the rewrite, and the evaluator, which has no case for it, throws.
\<close>

theorem rewrite_leaves_branch_and_keep:
  "decode_script example_header True
     [0x01, 0x00, 0x3E, 0x00, 0x09, 0x01, 0x01, 0x3E, 0x00, 0x04, 0x01, 0x02,
      0x3D, 0x00, 0x07, 0x43]
   = Inr [\<lparr>location = 0, opcode = BC_OPCODE_VAL8, operand = 0\<rparr>,
          \<lparr>location = 2, opcode = BC_OPCODE_BKN, operand = 12\<rparr>,
          \<lparr>location = 5, opcode = BC_OPCODE_VAL8, operand = 1\<rparr>,
          \<lparr>location = 7, opcode = BC_OPCODE_BKN, operand = 12\<rparr>,
          \<lparr>location = 10, opcode = BC_OPCODE_VAL8, operand = 2\<rparr>,
          \<lparr>location = 12, opcode = BC_OPCODE_BN, operand = 20\<rparr>,
          \<lparr>location = 15, opcode = BC_OPCODE_RETN, operand = 0\<rparr>] \<and>
   convert_bks_to_fake_logic
     [\<lparr>location = 0, opcode = BC_OPCODE_VAL8, operand = 0\<rparr>,
      \<lparr>location = 2, opcode = BC_OPCODE_BKN, operand = 12\<rparr>,
      \<lparr>location = 5, opcode = BC_OPCODE_VAL8, operand = 1\<rparr>,
      \<lparr>location = 7, opcode = BC_OPCODE_BKN, operand = 12\<rparr>,
      \<lparr>location = 10, opcode = BC_OPCODE_VAL8, operand = 2\<rparr>,
      \<lparr>location = 12, opcode = BC_OPCODE_BN, operand = 20\<rparr>]
   = [\<lparr>location = 0, opcode = BC_OPCODE_VAL8, operand = 0\<rparr>,
      \<lparr>location = 5, opcode = BC_OPCODE_VAL8, operand = 1\<rparr>,
      \<lparr>location = 7, opcode = BC_OPCODE_BKN, operand = 12\<rparr>,
      \<lparr>location = 10, opcode = BC_OPCODE_VAL8, operand = 2\<rparr>,
      \<lparr>location = 2, opcode = BC_FAKEOP_LAND, operand = 0\<rparr>,
      \<lparr>location = 12, opcode = BC_OPCODE_BN, operand = 20\<rparr>] \<and>
   make_statements
     \<lparr> scenes = [], strpool = [], globalnames = [] \<rparr>
     \<lparr> idx = 0, name = ''ev'', scene_kind = 0, parameters = [], argCnt = 0,
       varnames = [''var_0'', ''var_1'', ''var_2''], isGlobal = False \<rparr>
     [\<lparr>location = 0, opcode = BC_OPCODE_VAL8, operand = 0\<rparr>,
      \<lparr>location = 5, opcode = BC_OPCODE_VAL8, operand = 1\<rparr>,
      \<lparr>location = 7, opcode = BC_OPCODE_BKN, operand = 12\<rparr>,
      \<lparr>location = 10, opcode = BC_OPCODE_VAL8, operand = 2\<rparr>,
      \<lparr>location = 2, opcode = BC_FAKEOP_LAND, operand = 0\<rparr>,
      \<lparr>location = 12, opcode = BC_OPCODE_BN, operand = 20\<rparr>]
   = Inl ThrowFalse"
  by code_simp

section \<open>Slice points\<close>

lemma slice_point_step_eq:
  "slice_point_step T ig acc ins = acc \<union> ins_points T ig ins"
  by (auto simp: slice_point_step_def ins_points_def is_bk_def Let_def)

lemma slice_points_foldl:
  "foldl (slice_point_step T ig) acc script = acc \<union> (\<Union>ins \<in> set script. ins_points T ig ins)"
  by (induction script arbitrary: acc) (simp_all add: slice_point_step_eq Un_assoc)

lemma ins_points_Union:
  "(\<Union>ins \<in> set script. ins_points T ig ins) =
     (\<Union>ins \<in> {x \<in> set script. \<not> (ig \<and> is_bk x) \<and> isJump T (opcode x)}.
        {location ins + 1 + operandSize T (opcode ins), size_t_of (operand ins)})
     \<union> (\<lambda>ins. location ins + 1) ` {x \<in> set script. opcode x = BC_OPCODE_RETURN}"
  (is "?L = ?A \<union> ?B")
proof (intro set_eqI iffI)
  fix p assume "p \<in> ?L"
  then obtain ins where i: "ins \<in> set script" and p: "p \<in> ins_points T ig ins" by blast
  from p consider
    (j) "\<not> (ig \<and> is_bk ins)" "isJump T (opcode ins)"
        "p \<in> {location ins + 1 + operandSize T (opcode ins), size_t_of (operand ins)}"
    | (r) "opcode ins = BC_OPCODE_RETURN" "p = location ins + 1"
    unfolding ins_points_def by (auto split: if_splits)
  then show "p \<in> ?A \<union> ?B"
  proof cases
    case j
    with i have "p \<in> ?A" by blast
    then show ?thesis ..
  next
    case r
    with i have "p \<in> ?B" by blast
    then show ?thesis ..
  qed
next
  fix p assume "p \<in> ?A \<union> ?B"
  then show "p \<in> ?L"
  proof
    assume "p \<in> ?A"
    then obtain ins where "ins \<in> set script" "\<not> (ig \<and> is_bk ins)" "isJump T (opcode ins)"
      "p \<in> {location ins + 1 + operandSize T (opcode ins), size_t_of (operand ins)}"
      by blast
    then have "ins \<in> set script" "p \<in> ins_points T ig ins"
      by (auto simp: ins_points_def)
    then show ?thesis by blast
  next
    assume "p \<in> ?B"
    then obtain ins where "ins \<in> set script" "opcode ins = BC_OPCODE_RETURN"
      "p = location ins + 1"
      by blast
    then have "ins \<in> set script" "p \<in> ins_points T ig ins"
      by (simp_all add: ins_points_def)
    then show ?thesis by blast
  qed
qed

text \<open>
  Claim C7. The slicer's slice-point set is exactly: for each jump instruction that is not a
  suppressed \<^verbatim>\<open>BKY\<close>/\<^verbatim>\<open>BKN\<close>, the location immediately after the jump
  (\<open>location + 1 + operand_width\<close>) and the jump's target location; plus, for each \<^verbatim>\<open>RETURN\<close>
  instruction, the location immediately after it (\<open>location + 1\<close>); by default (the flag
  \<^verbatim>\<open>IgnoreBranchAndKeeps\<close> set) \<^verbatim>\<open>BKY\<close> and \<^verbatim>\<open>BKN\<close> contribute no slice points at all.
  A jump instruction is one whose table entry has \<^verbatim>\<open>isJump\<close>.
\<close>

theorem slice_points_exact:
  "slice_points T IgnoreBranchAndKeeps script =
     (\<Union>ins \<in> {x \<in> set script.
                  \<not> (IgnoreBranchAndKeeps \<and> is_bk x) \<and> isJump T (opcode x)}.
        {location ins + 1 + operandSize T (opcode ins), size_t_of (operand ins)})
     \<union> (\<lambda>ins. location ins + 1) ` {x \<in> set script. opcode x = BC_OPCODE_RETURN}
   \<and> slice_points T True script = slice_points T True (filter (\<lambda>x. \<not> is_bk x) script)"
proof -
  have u: "slice_points T ig s = (\<Union>ins \<in> set s. ins_points T ig ins)" for ig s
    by (simp add: slice_points_def slice_points_foldl)
  have a: "slice_points T IgnoreBranchAndKeeps script =
     (\<Union>ins \<in> {x \<in> set script.
                  \<not> (IgnoreBranchAndKeeps \<and> is_bk x) \<and> isJump T (opcode x)}.
        {location ins + 1 + operandSize T (opcode ins), size_t_of (operand ins)})
     \<union> (\<lambda>ins. location ins + 1) ` {x \<in> set script. opcode x = BC_OPCODE_RETURN}"
    unfolding u by (rule ins_points_Union)
  have e: "ins_points T True ins = {}" if "is_bk ins" for ins
    using that by (auto simp: ins_points_def is_bk_def)
  have "(\<Union>ins \<in> set script. ins_points T True ins)
          = (\<Union>ins \<in> set (filter (\<lambda>x. \<not> is_bk x) script). ins_points T True ins)"
    using e by fastforce
  then have b: "slice_points T True script
                  = slice_points T True (filter (\<lambda>x. \<not> is_bk x) script)"
    unfolding u .
  from a b show ?thesis by (rule conjI)
qed

theorem slice_points_exact_witness:
  "slice_points example_header True
     [\<lparr>location = 0, opcode = BC_OPCODE_VAL8, operand = 0\<rparr>,
      \<lparr>location = 2, opcode = BC_OPCODE_BKN, operand = 7\<rparr>,
      \<lparr>location = 5, opcode = BC_OPCODE_VAL8, operand = 1\<rparr>,
      \<lparr>location = 7, opcode = BC_OPCODE_BN, operand = 14\<rparr>,
      \<lparr>location = 10, opcode = BC_OPCODE_VAL8, operand = 1\<rparr>,
      \<lparr>location = 12, opcode = BC_OPCODE_RETURN, operand = 0\<rparr>,
      \<lparr>location = 13, opcode = BC_OPCODE_RETN, operand = 0\<rparr>]
   = {10, 13, 14} \<and>
   slice_points example_header True
     (filter (\<lambda>x. \<not> is_bk x)
       [\<lparr>location = 0, opcode = BC_OPCODE_VAL8, operand = 0\<rparr>,
        \<lparr>location = 2, opcode = BC_OPCODE_BKN, operand = 7\<rparr>,
        \<lparr>location = 5, opcode = BC_OPCODE_VAL8, operand = 1\<rparr>,
        \<lparr>location = 7, opcode = BC_OPCODE_BN, operand = 14\<rparr>,
        \<lparr>location = 10, opcode = BC_OPCODE_VAL8, operand = 1\<rparr>,
        \<lparr>location = 12, opcode = BC_OPCODE_RETURN, operand = 0\<rparr>,
        \<lparr>location = 13, opcode = BC_OPCODE_RETN, operand = 0\<rparr>])
   = {10, 13, 14} \<and>
   slice_points example_header False
     [\<lparr>location = 0, opcode = BC_OPCODE_VAL8, operand = 0\<rparr>,
      \<lparr>location = 2, opcode = BC_OPCODE_BKN, operand = 7\<rparr>,
      \<lparr>location = 5, opcode = BC_OPCODE_VAL8, operand = 1\<rparr>,
      \<lparr>location = 7, opcode = BC_OPCODE_BN, operand = 14\<rparr>,
      \<lparr>location = 10, opcode = BC_OPCODE_VAL8, operand = 1\<rparr>,
      \<lparr>location = 12, opcode = BC_OPCODE_RETURN, operand = 0\<rparr>,
      \<lparr>location = 13, opcode = BC_OPCODE_RETN, operand = 0\<rparr>]
   = {5, 7, 10, 13, 14}"
proof -
  let ?script = "[\<lparr>location = 0, opcode = BC_OPCODE_VAL8, operand = 0\<rparr>,
      \<lparr>location = 2, opcode = BC_OPCODE_BKN, operand = 7\<rparr>,
      \<lparr>location = 5, opcode = BC_OPCODE_VAL8, operand = 1\<rparr>,
      \<lparr>location = 7, opcode = BC_OPCODE_BN, operand = 14\<rparr>,
      \<lparr>location = 10, opcode = BC_OPCODE_VAL8, operand = 1\<rparr>,
      \<lparr>location = 12, opcode = BC_OPCODE_RETURN, operand = 0\<rparr>,
      \<lparr>location = 13, opcode = BC_OPCODE_RETN, operand = 0 :: 32 word\<rparr>]"
  have t: "slice_points example_header True ?script = {10, 13, 14}" by code_simp
  have f: "slice_points example_header False ?script = {5, 7, 10, 13, 14}" by code_simp
  from slice_points_exact [of example_header True ?script]
  have "slice_points example_header True ?script
          = slice_points example_header True (filter (\<lambda>x. \<not> is_bk x) ?script)"
    by (rule conjunct2)
  with t f show ?thesis by simp
qed

section \<open>STORE and ASSIGN\<close>

text \<open>
  Claim C8. The evaluator distinguishes \<^verbatim>\<open>STORE\<close> from \<^verbatim>\<open>ASSIGN\<close>: given two \<^verbatim>\<open>Push\<close>
  statements \<open>a\<close> then \<open>b\<close> on top, \<^verbatim>\<open>STORE\<close> replaces them with a single
  \<open>Push(Assign(a, b))\<close> statement (the assigned value remains on the shadow stack), while
  \<^verbatim>\<open>ASSIGN\<close> replaces them with an \<open>Expr(Assign(a, b))\<close> statement (the value is discarded
  from the shadow stack).
\<close>

theorem store_keeps_assign_discards:
  assumes "skind s1 = Stmt_Push" and "skind s2 = Stmt_Push"
    and "schildren s1 = a # as" and "schildren s2 = b # bs"
  shows "exec_ins script scene \<lparr>location = l, opcode = BC_OPCODE_STORE, operand = v\<rparr>
           (result @ [s1, s2])
         = Inr (result @ [\<lparr> skind = Stmt_Push, label = [],
                            schildren = [Expr Kind_Assign 0 [] [a, b]] \<rparr>]) \<and>
         exec_ins script scene \<lparr>location = l, opcode = BC_OPCODE_ASSIGN, operand = v\<rparr>
           (result @ [s1, s2])
         = Inr (result @ [\<lparr> skind = Stmt_Expr, label = [],
                            schildren = [Expr Kind_Assign 0 [] [a, b]] \<rparr>])"
proof -
  have b: "binop (result @ [s1, s2]) k
             = Inr (result @ [make_push (make_unique_binop k a b)])" for k
    using assms
    by (simp add: binop_def expect_push_push_def child0_def nth_append butlast_append)
  show ?thesis
    by (simp add: exec_ins_def b back_kind_def set_back_def make_push_def
        make_unique_binop_def)
qed

theorem store_keeps_assign_discards_witness:
  "skind (make_push (make_unique_unop Kind_Addrof (make_unique_identifier ''var_0''))) = Stmt_Push \<and>
   skind (make_push (make_unique_intlit 5)) = Stmt_Push \<and>
   exec_ins \<lparr> scenes = [], strpool = [], globalnames = [] \<rparr>
     \<lparr> idx = 0, name = ''ev'', scene_kind = 0, parameters = [], argCnt = 0,
       varnames = [''var_0''], isGlobal = False \<rparr>
     \<lparr>location = 4, opcode = BC_OPCODE_STORE, operand = 0\<rparr>
     [make_push (make_unique_unop Kind_Addrof (make_unique_identifier ''var_0'')),
      make_push (make_unique_intlit 5)]
   = Inr [\<lparr> skind = Stmt_Push, label = [],
            schildren = [Expr Kind_Assign 0 []
              [Expr Kind_Addrof 0 [] [Expr Kind_Named 0 ''var_0'' []],
               Expr Kind_IntLiteral 5 [] []]] \<rparr>] \<and>
   make_statements \<lparr> scenes = [], strpool = [], globalnames = [] \<rparr>
     \<lparr> idx = 0, name = ''ev'', scene_kind = 0, parameters = [], argCnt = 0,
       varnames = [''var_0''], isGlobal = False \<rparr>
     [\<lparr>location = 0, opcode = BC_OPCODE_REF8, operand = 0\<rparr>,
      \<lparr>location = 2, opcode = BC_OPCODE_NUMBER8, operand = 5\<rparr>,
      \<lparr>location = 4, opcode = BC_OPCODE_ASSIGN, operand = 0\<rparr>]
   = Inr [\<lparr> skind = Stmt_Expr, label = [],
            schildren = [Expr Kind_Assign 0 []
              [Expr Kind_Addrof 0 [] [Expr Kind_Named 0 ''var_0'' []],
               Expr Kind_IntLiteral 5 [] []]] \<rparr>]"
proof -
  let ?s1 = "make_push (make_unique_unop Kind_Addrof (make_unique_identifier ''var_0''))"
  let ?s2 = "make_push (make_unique_intlit 5)"
  let ?script = "\<lparr> scenes = [], strpool = [], globalnames = [] \<rparr>"
  let ?scene = "\<lparr> idx = 0, name = ''ev'', scene_kind = 0, parameters = [], argCnt = 0,
       varnames = [''var_0''], isGlobal = False \<rparr>"
  have k1: "skind ?s1 = Stmt_Push" and k2: "skind ?s2 = Stmt_Push"
    by (simp_all add: make_push_def)
  have c1: "schildren ?s1 = Expr Kind_Addrof 0 [] [Expr Kind_Named 0 ''var_0'' []] # []"
    by (simp add: make_push_def make_unique_unop_def make_unique_identifier_def)
  have c2: "schildren ?s2 = Expr Kind_IntLiteral 5 [] [] # []"
    by (simp add: make_push_def make_unique_intlit_def)
  have m: "make_statements ?script ?scene
     [\<lparr>location = 0, opcode = BC_OPCODE_REF8, operand = 0\<rparr>,
      \<lparr>location = 2, opcode = BC_OPCODE_NUMBER8, operand = 5\<rparr>,
      \<lparr>location = 4, opcode = BC_OPCODE_ASSIGN, operand = 0\<rparr>]
   = Inr [\<lparr> skind = Stmt_Expr, label = [],
            schildren = [Expr Kind_Assign 0 []
              [Expr Kind_Addrof 0 [] [Expr Kind_Named 0 ''var_0'' []],
               Expr Kind_IntLiteral 5 [] []]] \<rparr>]"
    by code_simp
  from store_keeps_assign_discards [OF k1 k2 c1 c2, of ?script ?scene 4 0 "[]"] k1 k2 m
  show ?thesis by simp
qed

section \<open>Deep copy\<close>

text \<open>
  Claim C9. For every expression tree \<open>e\<close>, the deep copy produced for \<^verbatim>\<open>DUP\<close>/\<^verbatim>\<open>DEREF\<close>
  duplication is structurally equal to \<open>e\<close>: same kind tag, same literal value, same name
  string, and recursively structurally equal children in the same order.
\<close>

theorem make_unique_copy_structural:
  "make_unique_copy e = e \<and>
   kind (make_unique_copy e) = kind e \<and>
   literal (make_unique_copy e) = literal e \<and>
   named (make_unique_copy e) = named e \<and>
   children (make_unique_copy e) = map make_unique_copy (children e)"
proof -
  have eq: "make_unique_copy e = e" for e
    by (induction e) (simp add: map_idI)
  then have copy_id: "make_unique_copy = (\<lambda>x. x)" by (intro ext)
  show ?thesis unfolding copy_id by simp
qed

end
